theory Spec2Isabelle
  imports Complex_Main "HOL-Library.Char_ord" "HOL-Library.List_Lexorder"
begin

section \<open>Data model\<close>

text \<open>
  The three servers (Control Panel, VSC, Simulation Server) keep their state in module
  globals. \<open>SIGNALS\<close> is a Python dict iterated in insertion order: an association list
  whose keys are distinct. The two identifier tables are dicts that are only looked up:
  finite maps. An exception that leaves a function is a value of \<open>py_error\<close>:
  \<open>KeyError\<close> for a missing key, \<open>IndexError\<close> for a read out of range, and the two
  exceptions of the \<open>math\<close> module and of float arithmetic, \<open>ValueError\<close> (math domain
  error) and \<open>OverflowError\<close>.
\<close>

text \<open>A Python float: a finite value (every double is a real), the negative zero, the
  two infinities, or not-a-number.\<close>

datatype pyfloat = Finite real | NegZero | PosInf | NegInf | NaN

type_synonym coord = "pyfloat \<times> pyfloat"

type_synonym registry = "(string \<times> coord) list"

datatype math_error = ValueError | OverflowError

datatype py_error = KeyError | IndexError | TypeError | MathError math_error

record globals =
  SIGNALS :: registry
  SIGNAL_NAME_TO_ID :: "string \<rightharpoonup> int"
  SIGNAL_ID_TO_NAME :: "int \<rightharpoonup> string"
  route_points :: "coord list"
  route_signal_waypoints :: "string list"
  current_point_index :: nat
  previous_location :: "coord option"
  current_start_name :: string
  current_destination_name :: string
  signals_passed_on_current_route :: "string list"
  mqtt_published :: "coord list list"

text \<open>The module-level initial values; \<open>mqtt_published\<close> logs every route handed to
  \<open>mqtt_client.publish\<close>, oldest first.\<close>

definition initial_globals :: globals where
  "initial_globals =
     \<lparr>SIGNALS = [], SIGNAL_NAME_TO_ID = Map.empty, SIGNAL_ID_TO_NAME = Map.empty,
      route_points = [], route_signal_waypoints = [], current_point_index = 0,
      previous_location = None, current_start_name = [], current_destination_name = [],
      signals_passed_on_current_route = [], mqtt_published = []\<rparr>"

section \<open>Signal registry\<close>

text \<open>A dict comprehension inserts its pairs left to right; a later pair with the same
  key overwrites an earlier one.\<close>

definition dict_comp :: "('k \<times> 'v) list \<Rightarrow> ('k \<rightharpoonup> 'v)" where
  "dict_comp kvs = fold (\<lambda>(k, v) m. m(k \<mapsto> v)) kvs Map.empty"

text \<open>\<open>sorted(SIGNALS.keys())\<close>: Python compares strings code point by code point,
  which on the ASCII names of the tables is the lexicographic order of \<open>char list\<close>.\<close>

definition sorted_signal_names :: "registry \<Rightarrow> string list" where
  "sorted_signal_names known = sort (map fst known)"

text \<open>\<open>{i + 1: name for i, name in enumerate(sorted_signal_names)}\<close>, as the list of
  its items.\<close>

definition id_to_name_items :: "registry \<Rightarrow> (int \<times> string) list" where
  "id_to_name_items known =
     map (\<lambda>(i, name). (int i + 1, name)) (enumerate 0 (sorted_signal_names known))"

text \<open>\<open>setup_signal_data\<close> (Control Panel, VSC) and \<open>load_signals_from_file\<close>
  (Simulation Server) are the same three assignments; \<open>known\<close> is the module constant
  \<open>KNOWN_SIGNALS\<close>.\<close>

definition setup_signal_data :: "registry \<Rightarrow> 'a globals_scheme \<Rightarrow> 'a globals_scheme" where
  "setup_signal_data known g =
     g\<lparr>SIGNALS := known,
       SIGNAL_ID_TO_NAME := dict_comp (id_to_name_items known),
       SIGNAL_NAME_TO_ID := dict_comp (map (\<lambda>(i, name). (name, i)) (id_to_name_items known))\<rparr>"

section \<open>Floats and the distance\<close>

text \<open>
  What the interpreter and the C library compute is not fixed here: every operation of
  the \<open>math\<close> module and of float arithmetic that the servers use is a field of the
  record \<open>runtime\<close>, and each may raise. So a result proved for every runtime holds for
  the rounding of the machine, whatever it is. (\<open>math.sin\<close> raises \<open>ValueError\<close> on an
  infinity, \<open>math.sqrt\<close> on a negative number, which rounding can produce from
  \<open>1 - a\<close> at nearly antipodal points; \<open>**\<close> raises \<open>OverflowError\<close>.) The last
  field is the order in which \<open>list.sort\<close> leaves a list when one of the keys is
  not-a-number, which the language does not fix either: some permutation, here the one
  that sorts by the rank the field assigns.
\<close>

record runtime =
  math_radians :: "pyfloat \<Rightarrow> math_error + pyfloat"
  math_sin :: "pyfloat \<Rightarrow> math_error + pyfloat"
  math_cos :: "pyfloat \<Rightarrow> math_error + pyfloat"
  math_sqrt :: "pyfloat \<Rightarrow> math_error + pyfloat"
  math_atan2 :: "pyfloat \<Rightarrow> pyfloat \<Rightarrow> math_error + pyfloat"
  float_add :: "pyfloat \<Rightarrow> pyfloat \<Rightarrow> math_error + pyfloat"
  float_sub :: "pyfloat \<Rightarrow> pyfloat \<Rightarrow> math_error + pyfloat"
  float_mul :: "pyfloat \<Rightarrow> pyfloat \<Rightarrow> math_error + pyfloat"
  float_truediv :: "pyfloat \<Rightarrow> pyfloat \<Rightarrow> math_error + pyfloat"
  float_pow :: "pyfloat \<Rightarrow> pyfloat \<Rightarrow> math_error + pyfloat"
  sort_rank_with_nan :: "pyfloat list \<Rightarrow> string list \<Rightarrow> string \<Rightarrow> nat"

text \<open>The value of a finite float or a zero.\<close>

fun float_value :: "pyfloat \<Rightarrow> real" where
  "float_value (Finite x) = x"
| "float_value other = 0"

text \<open>\<open>x < y\<close> on floats: false when either side is not-a-number.\<close>

fun float_lt :: "pyfloat \<Rightarrow> pyfloat \<Rightarrow> bool" where
  "float_lt NaN y = False"
| "float_lt x NaN = False"
| "float_lt PosInf y = False"
| "float_lt x PosInf = True"
| "float_lt x NegInf = False"
| "float_lt NegInf y = True"
| "float_lt x y = (float_value x < float_value y)"

text \<open>Evaluation in sequence: the first exception ends it.\<close>

definition and_then :: "'e + 'a \<Rightarrow> ('a \<Rightarrow> 'e + 'b) \<Rightarrow> 'e + 'b" where
  "and_then r f = (case r of Inl e \<Rightarrow> Inl e | Inr x \<Rightarrow> f x)"

text \<open>\<open>haversine\<close>, operation by operation in Python's order of evaluation. The integer
  literals \<open>2\<close> and \<open>1\<close> meet a float and are converted.\<close>

definition haversine ::
  "runtime \<Rightarrow> pyfloat \<Rightarrow> pyfloat \<Rightarrow> pyfloat \<Rightarrow> pyfloat \<Rightarrow> math_error + pyfloat" where
  "haversine rt lat1 lon1 lat2 lon2 =
     and_then (math_radians rt lat1) (\<lambda>lat1_rad.
     and_then (math_radians rt lon1) (\<lambda>lon1_rad.
     and_then (math_radians rt lat2) (\<lambda>lat2_rad.
     and_then (math_radians rt lon2) (\<lambda>lon2_rad.
     and_then (float_sub rt lon2_rad lon1_rad) (\<lambda>dlon.
     and_then (float_sub rt lat2_rad lat1_rad) (\<lambda>dlat.
     and_then (float_truediv rt dlat (Finite 2)) (\<lambda>half_dlat.
     and_then (math_sin rt half_dlat) (\<lambda>sin_dlat.
     and_then (float_pow rt sin_dlat (Finite 2)) (\<lambda>sin_dlat_sq.
     and_then (math_cos rt lat1_rad) (\<lambda>cos_lat1.
     and_then (math_cos rt lat2_rad) (\<lambda>cos_lat2.
     and_then (float_mul rt cos_lat1 cos_lat2) (\<lambda>cos_cos.
     and_then (float_truediv rt dlon (Finite 2)) (\<lambda>half_dlon.
     and_then (math_sin rt half_dlon) (\<lambda>sin_dlon.
     and_then (float_pow rt sin_dlon (Finite 2)) (\<lambda>sin_dlon_sq.
     and_then (float_mul rt cos_cos sin_dlon_sq) (\<lambda>second.
     and_then (float_add rt sin_dlat_sq second) (\<lambda>a.
     and_then (math_sqrt rt a) (\<lambda>sqrt_a.
     and_then (float_sub rt (Finite 1) a) (\<lambda>one_minus_a.
     and_then (math_sqrt rt one_minus_a) (\<lambda>sqrt_one_minus_a.
     and_then (math_atan2 rt sqrt_a sqrt_one_minus_a) (\<lambda>angle.
     and_then (float_mul rt (Finite 2) angle) (\<lambda>c.
     float_mul rt (Finite 6371) c))))))))))))))))))))))"

text \<open>
  One runtime to evaluate the model on: an arithmetic without rounding. On numbers every
  operation is the real function, \<open>math.sqrt\<close> raising on a negative number as the
  library does; the servers divide by the literal \<open>2\<close> and raise to the literal power
  \<open>2\<close> only. The sign of a zero is not kept, and an operation on an infinity or on
  not-a-number gives not-a-number: no evaluation below reaches either. What is proved for
  every runtime does not depend on this one.
\<close>

definition exact1 :: "(real \<Rightarrow> real) \<Rightarrow> pyfloat \<Rightarrow> math_error + pyfloat" where
  "exact1 f x =
     (case x of Finite r \<Rightarrow> Inr (Finite (f r)) | NegZero \<Rightarrow> Inr (Finite (f 0))
      | other \<Rightarrow> Inr NaN)"

definition exact2 ::
  "(real \<Rightarrow> real \<Rightarrow> real) \<Rightarrow> pyfloat \<Rightarrow> pyfloat \<Rightarrow> math_error + pyfloat" where
  "exact2 f x y =
     (if x \<in> {PosInf, NegInf, NaN} \<or> y \<in> {PosInf, NegInf, NaN} then Inr NaN
      else Inr (Finite (f (float_value x) (float_value y))))"

definition checked_sqrt :: "pyfloat \<Rightarrow> math_error + pyfloat" where
  "checked_sqrt x =
     (case x of
        Finite r \<Rightarrow> if r < 0 then Inl ValueError else Inr (Finite (sqrt r))
      | NegZero \<Rightarrow> Inr NegZero
      | PosInf \<Rightarrow> Inr PosInf
      | NegInf \<Rightarrow> Inl ValueError
      | NaN \<Rightarrow> Inr NaN)"

definition real_atan2 :: "real \<Rightarrow> real \<Rightarrow> real" where
  "real_atan2 y x =
     (if 0 < x then arctan (y / x)
      else if x < 0 then (if 0 \<le> y then arctan (y / x) + pi else arctan (y / x) - pi)
      else if 0 < y then pi / 2
      else if y < 0 then - (pi / 2)
      else 0)"

definition exact_math :: runtime where
  "exact_math =
     \<lparr>math_radians = exact1 (\<lambda>d. d * pi / 180),
      math_sin = exact1 sin,
      math_cos = exact1 cos,
      math_sqrt = checked_sqrt,
      math_atan2 = exact2 real_atan2,
      float_add = exact2 (+),
      float_sub = exact2 (-),
      float_mul = exact2 (*),
      float_truediv = exact2 (/),
      float_pow = exact2 (\<lambda>x y. x ^ nat \<lfloor>y\<rfloor>),
      sort_rank_with_nan = (\<lambda>keys names name. 0)\<rparr>"

section \<open>Waypoint sequencing\<close>

text \<open>A float literal is read as the decimal it is written as.\<close>

definition WAYPOINT_PROXIMITY_KM :: pyfloat where
  "WAYPOINT_PROXIMITY_KM = Finite 0.1"

text \<open>\<open>any(haversine(lat, lon, sig_lat, sig_lon) < WAYPOINT_PROXIMITY_KM for lat, lon in
  route_points)\<close>: it stops at the first point that is near, and at the first distance
  that raises.\<close>

fun any_point_near ::
  "runtime \<Rightarrow> pyfloat \<Rightarrow> pyfloat \<Rightarrow> coord list \<Rightarrow> py_error + bool" where
  "any_point_near rt sig_lat sig_lon [] = Inr False"
| "any_point_near rt sig_lat sig_lon ((lat, lon) # points) =
     (case haversine rt lat lon sig_lat sig_lon of
        Inl e \<Rightarrow> Inl (MathError e)
      | Inr d \<Rightarrow> if float_lt d WAYPOINT_PROXIMITY_KM then Inr True
                else any_point_near rt sig_lat sig_lon points)"

text \<open>The list comprehension over \<open>SIGNALS.items()\<close>, signal by signal.\<close>

fun signals_near_path :: "runtime \<Rightarrow> registry \<Rightarrow> coord list \<Rightarrow> py_error + string list" where
  "signals_near_path rt [] points = Inr []"
| "signals_near_path rt ((name, (sig_lat, sig_lon)) # sigs) points =
     (case any_point_near rt sig_lat sig_lon points of
        Inl e \<Rightarrow> Inl e
      | Inr near \<Rightarrow>
          (case signals_near_path rt sigs points of
             Inl e \<Rightarrow> Inl e
           | Inr names \<Rightarrow> Inr (if near then name # names else names)))"

text \<open>The keys of \<open>waypoints.sort(key=...)\<close>: Python computes the key of every element
  first, in order; the lookup \<open>SIGNALS[name]\<close> raises on a missing name.\<close>

fun distance_keys ::
  "runtime \<Rightarrow> registry \<Rightarrow> pyfloat \<Rightarrow> pyfloat \<Rightarrow> string list \<Rightarrow> py_error + pyfloat list" where
  "distance_keys rt sigs start_lat start_lon [] = Inr []"
| "distance_keys rt sigs start_lat start_lon (name # names) =
     (case map_of sigs name of
        None \<Rightarrow> Inl KeyError
      | Some (sig_lat, sig_lon) \<Rightarrow>
          (case haversine rt start_lat start_lon sig_lat sig_lon of
             Inl e \<Rightarrow> Inl (MathError e)
           | Inr k \<Rightarrow>
               (case distance_keys rt sigs start_lat start_lon names of
                  Inl e \<Rightarrow> Inl e
                | Inr ks \<Rightarrow> Inr (k # ks))))"

text \<open>A stable sort by float keys that are numbers: an element goes in front of the
  first one whose key is not smaller than its own.\<close>

fun insert_by_key :: "pyfloat \<times> 'a \<Rightarrow> (pyfloat \<times> 'a) list \<Rightarrow> (pyfloat \<times> 'a) list" where
  "insert_by_key x [] = [x]"
| "insert_by_key x (y # ys) =
     (if float_lt (fst y) (fst x) then y # insert_by_key x ys else x # y # ys)"

definition stable_sort_by_key :: "(pyfloat \<times> 'a) list \<Rightarrow> (pyfloat \<times> 'a) list" where
  "stable_sort_by_key xs = foldr insert_by_key xs []"

definition sort_by_distance ::
  "runtime \<Rightarrow> registry \<Rightarrow> pyfloat \<Rightarrow> pyfloat \<Rightarrow> string list \<Rightarrow> py_error + string list" where
  "sort_by_distance rt sigs start_lat start_lon waypoints =
     (case distance_keys rt sigs start_lat start_lon waypoints of
        Inl e \<Rightarrow> Inl e
      | Inr keys \<Rightarrow>
          if NaN \<in> set keys
          then Inr (sort_key (sort_rank_with_nan rt keys waypoints) waypoints)
          else Inr (map snd (stable_sort_by_key (zip keys waypoints))))"

text \<open>\<open>list(dict.fromkeys(xs))\<close>: the elements of \<open>xs\<close> in order of first occurrence.\<close>

primrec fromkeys_acc :: "'a list \<Rightarrow> 'a list \<Rightarrow> 'a list" where
  "fromkeys_acc acc [] = acc"
| "fromkeys_acc acc (x # xs) = fromkeys_acc (if x \<in> set acc then acc else acc @ [x]) xs"

definition fromkeys :: "'a list \<Rightarrow> 'a list" where
  "fromkeys xs = fromkeys_acc [] xs"

text \<open>The lines the Control Panel and the VSC file share: select, sort by distance from
  the start signal, take the start and the end name out.\<close>

definition path_signals ::
  "runtime \<Rightarrow> registry \<Rightarrow> coord list \<Rightarrow> string \<Rightarrow> string \<Rightarrow> py_error + string list" where
  "path_signals rt sigs points start_name end_name =
     (case signals_near_path rt sigs points of
        Inl e \<Rightarrow> Inl e
      | Inr waypoints \<Rightarrow>
          (case map_of sigs start_name of
             None \<Rightarrow> Inl KeyError
           | Some (start_lat, start_lon) \<Rightarrow>
               (case sort_by_distance rt sigs start_lat start_lon waypoints of
                  Inl e \<Rightarrow> Inl e
                | Inr waypoints \<Rightarrow>
                    let waypoints = (if start_name \<in> set waypoints
                                     then remove1 start_name waypoints else waypoints);
                        waypoints = (if end_name \<in> set waypoints
                                     then remove1 end_name waypoints else waypoints)
                    in Inr waypoints)))"

text \<open>Control Panel: the result is deduplicated.\<close>

definition find_signals_on_path ::
  "runtime \<Rightarrow> 'a globals_scheme \<Rightarrow> coord list \<Rightarrow> string \<Rightarrow> string \<Rightarrow>
     py_error + string list" where
  "find_signals_on_path rt g points start_name end_name =
     (case path_signals rt (SIGNALS g) points start_name end_name of
        Inl e \<Rightarrow> Inl e
      | Inr waypoints \<Rightarrow> Inr (fromkeys ([start_name] @ waypoints @ [end_name])))"

text \<open>VSC: the same list, returned as it is.\<close>

definition vsc_find_signals_on_path ::
  "runtime \<Rightarrow> 'a globals_scheme \<Rightarrow> coord list \<Rightarrow> string \<Rightarrow> string \<Rightarrow>
     py_error + string list" where
  "vsc_find_signals_on_path rt g points start_name end_name =
     (case path_signals rt (SIGNALS g) points start_name end_name of
        Inl e \<Rightarrow> Inl e
      | Inr middle \<Rightarrow> Inr ([start_name] @ middle @ [end_name]))"

section \<open>Route simulation\<close>

text \<open>Control Panel: past the end of a non-empty route the last point is held.\<close>

definition get_next_simulated_location ::
  "'a globals_scheme \<Rightarrow> 'a globals_scheme \<times> (coord option \<times> coord option)" where
  "get_next_simulated_location g =
     (let pts = route_points g; idx = current_point_index g in
      if pts = [] \<or> idx \<ge> length pts then
        (if pts \<noteq> [] then
           (g, (Some (last pts),
                Some (if length pts > 1 then pts ! (length pts - 2) else last pts)))
         else (g, (None, None)))
      else
        let prev = (if idx > 0 then pts ! (idx - 1) else pts ! 0);
            cur = pts ! idx
        in (g\<lparr>previous_location := Some prev, current_point_index := idx + 1\<rparr>,
            (Some cur, Some prev)))"

text \<open>VSC: past the end there is no location.\<close>

definition vsc_get_next_simulated_location ::
  "'a globals_scheme \<Rightarrow> 'a globals_scheme \<times> (coord option \<times> coord option)" where
  "vsc_get_next_simulated_location g =
     (let pts = route_points g; idx = current_point_index g in
      if pts = [] \<or> idx \<ge> length pts then (g, (None, None))
      else
        let prev = (if idx > 0 then pts ! (idx - 1) else pts ! 0);
            cur = pts ! idx
        in (g\<lparr>previous_location := Some prev, current_point_index := idx + 1\<rparr>,
            (Some cur, Some prev)))"

text \<open>\<open>n\<close> successive calls, keeping the state.\<close>

definition ticks :: "nat \<Rightarrow> 'a globals_scheme \<Rightarrow> 'a globals_scheme" where
  "ticks n g = ((\<lambda>g. fst (get_next_simulated_location g)) ^^ n) g"

definition vsc_ticks :: "nat \<Rightarrow> 'a globals_scheme \<Rightarrow> 'a globals_scheme" where
  "vsc_ticks n g = ((\<lambda>g. fst (vsc_get_next_simulated_location g)) ^^ n) g"

section \<open>Signal progress\<close>

text \<open>\<open>next((s for s in route_signal_waypoints if s not in signals_passed_on_current_route),
  None)\<close>\<close>

definition next_unpassed :: "string list \<Rightarrow> string list \<Rightarrow> string option" where
  "next_unpassed waypoints passed = find (\<lambda>s. s \<notin> set passed) waypoints"

text \<open>One pass through the body of \<open>while True\<close> in \<open>find_next_signal_on_route\<close>: it
  returns a name, falls through to the next pass, or raises. The state goes with each
  outcome: what was appended to the passed list before an exception stays appended.\<close>

datatype 'g iteration = Return 'g string | Continue 'g | Raise 'g py_error

text \<open>Control Panel and Simulation Server, the same text: \<open>SIGNALS.get\<close> with the default
  \<open>(0, 0)\<close>.\<close>

definition while_body ::
  "runtime \<Rightarrow> 'a globals_scheme \<Rightarrow> pyfloat \<Rightarrow> pyfloat \<Rightarrow> 'a globals_scheme iteration" where
  "while_body rt g current_lat current_lon =
     (case next_unpassed (route_signal_waypoints g) (signals_passed_on_current_route g) of
        None \<Rightarrow> Return g (current_destination_name g)
      | Some next_signal_name \<Rightarrow>
          let (next_signal_lat, next_signal_lon) =
                (case map_of (SIGNALS g) next_signal_name of
                   None \<Rightarrow> (Finite 0, Finite 0) | Some c \<Rightarrow> c)
          in (case haversine rt current_lat current_lon next_signal_lat next_signal_lon of
                Inl e \<Rightarrow> Raise g (MathError e)
              | Inr d \<Rightarrow>
                  if float_lt d (Finite 0.05) then
                    Continue
                      (if next_signal_name \<notin> set (signals_passed_on_current_route g)
                       then g\<lparr>signals_passed_on_current_route :=
                                 signals_passed_on_current_route g @ [next_signal_name]\<rparr>
                       else g)
                  else Return g next_signal_name))"

text \<open>VSC: \<open>SIGNALS[next_sig]\<close>, which raises on a name that is not in the table.\<close>

definition vsc_while_body ::
  "runtime \<Rightarrow> 'a globals_scheme \<Rightarrow> pyfloat \<Rightarrow> pyfloat \<Rightarrow> 'a globals_scheme iteration" where
  "vsc_while_body rt g curr_lat curr_lon =
     (case next_unpassed (route_signal_waypoints g) (signals_passed_on_current_route g) of
        None \<Rightarrow> Return g (current_destination_name g)
      | Some next_sig \<Rightarrow>
          (case map_of (SIGNALS g) next_sig of
             None \<Rightarrow> Raise g KeyError
           | Some (s_lat, s_lon) \<Rightarrow>
               (case haversine rt curr_lat curr_lon s_lat s_lon of
                  Inl e \<Rightarrow> Raise g (MathError e)
                | Inr d \<Rightarrow>
                    if float_lt d (Finite 0.05) then
                      Continue
                        (if next_sig \<notin> set (signals_passed_on_current_route g)
                         then g\<lparr>signals_passed_on_current_route :=
                                   signals_passed_on_current_route g @ [next_sig]\<rparr>
                         else g)
                    else Return g next_sig)))"

lemma length_filter_unpassed_less:
  assumes "s \<in> set ws" and "s \<notin> set passed"
  shows "length (filter (\<lambda>x. x \<notin> set (passed @ [s])) ws) <
         length (filter (\<lambda>x. x \<notin> set passed) ws)"
proof -
  have "filter (\<lambda>x. x \<notin> set (passed @ [s])) ws =
        filter (\<lambda>x. x \<noteq> s) (filter (\<lambda>x. x \<notin> set passed) ws)"
    by (induction ws) auto
  moreover have "s \<in> set (filter (\<lambda>x. x \<notin> set passed) ws)"
    using assms by simp
  ultimately show ?thesis
    by (metis (mono_tags, lifting) length_filter_less)
qed

lemma next_unpassed_Some:
  assumes "next_unpassed ws passed = Some s"
  shows "s \<in> set ws" and "s \<notin> set passed"
proof -
  from assms obtain i where "i < length ws" "ws ! i \<notin> set passed" "s = ws ! i"
    unfolding next_unpassed_def find_Some_iff by blast
  then show "s \<in> set ws" and "s \<notin> set passed" by simp_all
qed

lemma while_body_Continue:
  assumes "while_body rt g lat lon = Continue g'"
  shows "\<exists>s. s \<in> set (route_signal_waypoints g) \<and>
             s \<notin> set (signals_passed_on_current_route g) \<and>
             next_unpassed (route_signal_waypoints g) (signals_passed_on_current_route g) = Some s \<and>
             g' = g\<lparr>signals_passed_on_current_route :=
                      signals_passed_on_current_route g @ [s]\<rparr>"
proof (cases "next_unpassed (route_signal_waypoints g) (signals_passed_on_current_route g)")
  case None
  with assms show ?thesis by (simp add: while_body_def)
next
  case (Some s)
  note mem = next_unpassed_Some [OF Some]
  from assms Some mem(2)
  have "g' = g\<lparr>signals_passed_on_current_route := signals_passed_on_current_route g @ [s]\<rparr>"
    by (simp add: while_body_def split: option.splits prod.splits sum.splits if_splits)
  with Some mem show ?thesis by blast
qed

lemma vsc_while_body_Continue:
  assumes "vsc_while_body rt g lat lon = Continue g'"
  shows "\<exists>s. s \<in> set (route_signal_waypoints g) \<and>
             s \<notin> set (signals_passed_on_current_route g) \<and>
             g' = g\<lparr>signals_passed_on_current_route :=
                      signals_passed_on_current_route g @ [s]\<rparr>"
proof (cases "next_unpassed (route_signal_waypoints g) (signals_passed_on_current_route g)")
  case None
  with assms show ?thesis by (simp add: vsc_while_body_def)
next
  case (Some s)
  note mem = next_unpassed_Some [OF Some]
  from assms Some mem(2)
  have "g' = g\<lparr>signals_passed_on_current_route := signals_passed_on_current_route g @ [s]\<rparr>"
    by (simp add: vsc_while_body_def split: option.splits prod.splits sum.splits if_splits)
  with mem show ?thesis by blast
qed

function find_next_signal_on_route ::
  "runtime \<Rightarrow> 'a globals_scheme \<Rightarrow> pyfloat \<Rightarrow> pyfloat \<Rightarrow>
     'a globals_scheme \<times> (py_error + string)" where
  "find_next_signal_on_route rt g current_lat current_lon =
     (case while_body rt g current_lat current_lon of
        Return g' name \<Rightarrow> (g', Inr name)
      | Raise g' e \<Rightarrow> (g', Inl e)
      | Continue g' \<Rightarrow> find_next_signal_on_route rt g' current_lat current_lon)"
  by pat_completeness auto
termination
proof (relation "measure (\<lambda>(rt, g, lat, lon).
    length (filter (\<lambda>s. s \<notin> set (signals_passed_on_current_route g))
             (route_signal_waypoints g)))")
  show "wf (measure (\<lambda>(rt :: runtime, g :: 'a globals_scheme, lat :: pyfloat, lon :: pyfloat).
    length (filter (\<lambda>s. s \<notin> set (signals_passed_on_current_route g))
             (route_signal_waypoints g))))"
    by simp
next
  fix rt :: runtime and g :: "'a globals_scheme" and current_lat current_lon :: pyfloat and g'
  assume "while_body rt g current_lat current_lon = Continue g'"
  from while_body_Continue [OF this] length_filter_unpassed_less
  show "((rt, g', current_lat, current_lon), (rt, g, current_lat, current_lon))
        \<in> measure (\<lambda>(rt, g, lat, lon).
            length (filter (\<lambda>s. s \<notin> set (signals_passed_on_current_route g))
                     (route_signal_waypoints g)))"
    by auto
qed

declare find_next_signal_on_route.simps [simp del]

function vsc_find_next_signal_on_route ::
  "runtime \<Rightarrow> 'a globals_scheme \<Rightarrow> pyfloat \<Rightarrow> pyfloat \<Rightarrow>
     'a globals_scheme \<times> (py_error + string)" where
  "vsc_find_next_signal_on_route rt g curr_lat curr_lon =
     (case vsc_while_body rt g curr_lat curr_lon of
        Return g' name \<Rightarrow> (g', Inr name)
      | Raise g' e \<Rightarrow> (g', Inl e)
      | Continue g' \<Rightarrow> vsc_find_next_signal_on_route rt g' curr_lat curr_lon)"
  by pat_completeness auto
termination
proof (relation "measure (\<lambda>(rt, g, lat, lon).
    length (filter (\<lambda>s. s \<notin> set (signals_passed_on_current_route g))
             (route_signal_waypoints g)))")
  show "wf (measure (\<lambda>(rt :: runtime, g :: 'a globals_scheme, lat :: pyfloat, lon :: pyfloat).
    length (filter (\<lambda>s. s \<notin> set (signals_passed_on_current_route g))
             (route_signal_waypoints g))))"
    by simp
next
  fix rt :: runtime and g :: "'a globals_scheme" and curr_lat curr_lon :: pyfloat and g'
  assume "vsc_while_body rt g curr_lat curr_lon = Continue g'"
  from vsc_while_body_Continue [OF this] length_filter_unpassed_less
  show "((rt, g', curr_lat, curr_lon), (rt, g, curr_lat, curr_lon))
        \<in> measure (\<lambda>(rt, g, lat, lon).
            length (filter (\<lambda>s. s \<notin> set (signals_passed_on_current_route g))
                     (route_signal_waypoints g)))"
    by auto
qed

declare vsc_find_next_signal_on_route.simps [simp del]

text \<open>The loop of the Control Panel, stopped after at most \<open>n\<close> passes through the
  body.\<close>

fun find_next_signal_fuel ::
  "nat \<Rightarrow> runtime \<Rightarrow> 'a globals_scheme \<Rightarrow> pyfloat \<Rightarrow> pyfloat \<Rightarrow>
     ('a globals_scheme \<times> (py_error + string)) option" where
  "find_next_signal_fuel 0 rt g current_lat current_lon = None"
| "find_next_signal_fuel (Suc n) rt g current_lat current_lon =
     (case while_body rt g current_lat current_lon of
        Return g' name \<Rightarrow> Some (g', Inr name)
      | Raise g' e \<Rightarrow> Some (g', Inl e)
      | Continue g' \<Rightarrow> find_next_signal_fuel n rt g' current_lat current_lon)"

text \<open>Successive calls at the positions \<open>ps\<close>: the final state and what each call
  returned or raised.\<close>

fun next_signal_calls ::
  "runtime \<Rightarrow> 'a globals_scheme \<Rightarrow> coord list \<Rightarrow>
     'a globals_scheme \<times> (py_error + string) list" where
  "next_signal_calls rt g [] = (g, [])"
| "next_signal_calls rt g ((lat, lon) # ps) =
     (let (g', answer) = find_next_signal_on_route rt g lat lon;
          (g'', answers) = next_signal_calls rt g' ps
      in (g'', answer # answers))"

section \<open>Route activation\<close>

text \<open>
  The answer of \<open>/start-manual-route\<close>: the waypoint list with status 200, or the error
  message with status 500. The request's ids are taken as parsed integers; a request
  that does not parse raises before anything is assigned. \<open>get_osrm_route\<close> is the
  external provider, a parameter: \<open>None\<close> is its failure or non-OK answer, \<open>Some\<close> the
  coordinate list in (longitude, latitude) order; \<open>if full_route_coords:\<close> is false for
  \<open>None\<close> and for the empty list. An exception out of \<open>find_signals_on_path\<close> leaves
  the route points assigned and nothing after them.
\<close>

datatype response = Started "string list" | CouldNotCalculate

text \<open>Control Panel.\<close>

definition start_manual_route ::
  "runtime \<Rightarrow> (coord \<Rightarrow> coord \<Rightarrow> coord list option) \<Rightarrow> int \<Rightarrow> int \<Rightarrow> 'a globals_scheme \<Rightarrow>
     'a globals_scheme \<times> (py_error + response)" where
  "start_manual_route rt get_osrm_route start_id end_id g =
     (case SIGNAL_ID_TO_NAME g start_id of
        None \<Rightarrow> (g, Inl KeyError)
      | Some start_name \<Rightarrow>
         (let g = g\<lparr>current_start_name := start_name\<rparr> in
          case SIGNAL_ID_TO_NAME g end_id of
            None \<Rightarrow> (g, Inl KeyError)
          | Some end_name \<Rightarrow>
             (let g = g\<lparr>current_destination_name := end_name\<rparr> in
              case map_of (SIGNALS g) (current_start_name g) of
                None \<Rightarrow> (g, Inl KeyError)
              | Some start_coord \<Rightarrow>
                 (case map_of (SIGNALS g) (current_destination_name g) of
                    None \<Rightarrow> (g, Inl KeyError)
                  | Some end_coord \<Rightarrow>
                     (case get_osrm_route (snd start_coord, fst start_coord)
                             (snd end_coord, fst end_coord) of
                        None \<Rightarrow> (g, Inr CouldNotCalculate)
                      | Some [] \<Rightarrow> (g, Inr CouldNotCalculate)
                      | Some (c # cs) \<Rightarrow>
                         (let g = g\<lparr>route_points :=
                                      map (\<lambda>(lon, lat). (lat, lon)) (c # cs)\<rparr> in
                          case find_signals_on_path rt g (route_points g) (current_start_name g)
                                 (current_destination_name g) of
                            Inl e \<Rightarrow> (g, Inl e)
                          | Inr waypoints \<Rightarrow>
                             (g\<lparr>route_signal_waypoints := waypoints,
                                current_point_index := 0,
                                previous_location := None,
                                signals_passed_on_current_route := [],
                                mqtt_published := mqtt_published g @ [route_points g]\<rparr>,
                              Inr (Started waypoints))))))))"

text \<open>VSC.\<close>

definition vsc_start_route ::
  "runtime \<Rightarrow> (coord \<Rightarrow> coord \<Rightarrow> coord list option) \<Rightarrow> int \<Rightarrow> int \<Rightarrow> 'a globals_scheme \<Rightarrow>
     'a globals_scheme \<times> (py_error + response)" where
  "vsc_start_route rt get_osrm_route start_id end_id g =
     (case SIGNAL_ID_TO_NAME g start_id of
        None \<Rightarrow> (g, Inl KeyError)
      | Some start_name \<Rightarrow>
         (let g = g\<lparr>current_start_name := start_name\<rparr> in
          case SIGNAL_ID_TO_NAME g end_id of
            None \<Rightarrow> (g, Inl KeyError)
          | Some end_name \<Rightarrow>
             (let g = g\<lparr>current_destination_name := end_name\<rparr> in
              case map_of (SIGNALS g) (current_start_name g) of
                None \<Rightarrow> (g, Inl KeyError)
              | Some start_coord \<Rightarrow>
                 (case map_of (SIGNALS g) (current_destination_name g) of
                    None \<Rightarrow> (g, Inl KeyError)
                  | Some end_coord \<Rightarrow>
                     (case get_osrm_route (snd start_coord, fst start_coord)
                             (snd end_coord, fst end_coord) of
                        None \<Rightarrow> (g, Inr CouldNotCalculate)
                      | Some [] \<Rightarrow> (g, Inr CouldNotCalculate)
                      | Some (c # cs) \<Rightarrow>
                         (let g = g\<lparr>route_points :=
                                      map (\<lambda>(lon, lat). (lat, lon)) (c # cs)\<rparr> in
                          case vsc_find_signals_on_path rt g (route_points g) (current_start_name g)
                                 (current_destination_name g) of
                            Inl e \<Rightarrow> (g, Inl e)
                          | Inr waypoints \<Rightarrow>
                             (g\<lparr>route_signal_waypoints := waypoints,
                                current_point_index := 0,
                                signals_passed_on_current_route := [],
                                mqtt_published := mqtt_published g @ [route_points g]\<rparr>,
                              Inr (Started waypoints))))))))"

text \<open>Simulation Server: a precomputed route is the dict with the keys \<open>start\<close>,
  \<open>end\<close>, \<open>points\<close> and \<open>waypoints\<close>; \<open>random.choice\<close> returns the element at some
  index, the parameter \<open>pick\<close>.\<close>

record route =
  rt_start :: string
  rt_end :: string
  rt_points :: "coord list"
  rt_waypoints :: "string list"

record sim_globals = globals +
  PRECALCULATED_ROUTES :: "route list"

definition select_new_route ::
  "nat \<Rightarrow> 'a sim_globals_scheme \<Rightarrow> 'a sim_globals_scheme \<times> bool" where
  "select_new_route pick g =
     (if PRECALCULATED_ROUTES g = [] then (g, False)
      else
        let selected_route = PRECALCULATED_ROUTES g ! (pick mod length (PRECALCULATED_ROUTES g));
            g = g\<lparr>route_points := rt_points selected_route,
                  route_signal_waypoints := rt_waypoints selected_route\<rparr>;
            g = g\<lparr>current_start_name := rt_start selected_route,
                  current_destination_name := rt_end selected_route\<rparr>;
            g = g\<lparr>mqtt_published := mqtt_published g @ [route_points g]\<rparr>;
            g = g\<lparr>current_point_index := 0, previous_location := None\<rparr>;
            g = g\<lparr>signals_passed_on_current_route := []\<rparr>
        in (g, True))"

text \<open>The three lines after the guard of the Simulation Server's
  \<open>get_next_simulated_location\<close>; \<open>route_points[0]\<close> raises on an empty route.\<close>

definition advance ::
  "'a globals_scheme \<Rightarrow> 'a globals_scheme \<times> (py_error + coord option \<times> coord option)" where
  "advance g =
     (let pts = route_points g; idx = current_point_index g in
      if (if idx > 0 then idx - 1 else 0) \<ge> length pts then (g, Inl IndexError)
      else
        let prev = (if idx > 0 then pts ! (idx - 1) else pts ! 0);
            g = g\<lparr>previous_location := Some prev\<rparr>
        in if idx \<ge> length pts then (g, Inl IndexError)
           else (g\<lparr>current_point_index := idx + 1\<rparr>, Inr (Some (pts ! idx), Some prev)))"

definition sim_get_next_simulated_location ::
  "nat \<Rightarrow> 'a sim_globals_scheme \<Rightarrow>
     'a sim_globals_scheme \<times> (py_error + coord option \<times> coord option)" where
  "sim_get_next_simulated_location pick g =
     (if route_points g = [] \<or> current_point_index g \<ge> length (route_points g) then
        (case select_new_route pick g of
           (g', False) \<Rightarrow> (g', Inr (None, None))
         | (g', True) \<Rightarrow> advance g')
      else advance g)"

section \<open>Telemetry\<close>

definition digit_char :: "nat \<Rightarrow> char" where
  "digit_char d = ''0123456789'' ! d"

fun str_nat :: "nat \<Rightarrow> string" where
  "str_nat n = (if n < 10 then [digit_char n] else str_nat (n div 10) @ [digit_char (n mod 10)])"

declare str_nat.simps [simp del]

text \<open>\<open>str(i)\<close> of a Python int, as the f-string writes an id.\<close>

definition str_int :: "int \<Rightarrow> string" where
  "str_int i = (if i < 0 then CHR ''-'' # str_nat (nat (- i)) else str_nat (nat i))"

definition round_half_even :: "real \<Rightarrow> int" where
  "round_half_even y =
     (let f = \<lfloor>y\<rfloor>; d = y - of_int f in
      if d < 1 / 2 then f else if 1 / 2 < d then f + 1 else if even f then f else f + 1)"

text \<open>\<open>f"{x:.6f}"\<close> of a float. A finite value is written with its sign, the integer
  part, a point, and six digits: its exact value rounded to the nearest millionth, a tie
  to the even one. The negative zero keeps its sign; an infinity and not-a-number are
  written as words.\<close>

definition format_6f :: "pyfloat \<Rightarrow> string" where
  "format_6f v =
     (case v of
        Finite x \<Rightarrow>
          (let n = nat (round_half_even (\<bar>x\<bar> * 1000000));
               whole = str_nat (n div 1000000);
               frac = str_nat (n mod 1000000)
           in (if x < 0 then ''-'' else []) @ whole @ ''.'' @
              replicate (6 - length frac) (CHR ''0'') @ frac)
      | NegZero \<Rightarrow> ''-0.000000''
      | PosInf \<Rightarrow> ''inf''
      | NegInf \<Rightarrow> ''-inf''
      | NaN \<Rightarrow> ''nan'')"

definition payload :: "coord \<Rightarrow> coord \<Rightarrow> int \<Rightarrow> int \<Rightarrow> int \<Rightarrow> string" where
  "payload current_loc prev_loc start_id dest_id next_signal_id =
     format_6f (fst current_loc) @ '','' @ format_6f (snd current_loc) @ '','' @
     format_6f (fst prev_loc) @ '','' @ format_6f (snd prev_loc) @ '','' @
     str_int start_id @ '','' @ str_int dest_id @ '','' @ str_int next_signal_id"

text \<open>The answer of \<open>/location\<close>: the payload, an error text with status 500, or an
  exception (which the web framework turns into status 500).\<close>

datatype location_answer = Payload string | Error500 string | Raised py_error

text \<open>The lines of \<open>get_location\<close> after the next signal is known, the same in the
  three servers: \<open>SIGNAL_NAME_TO_ID.get(name, 0)\<close> three times, and the f-string, which
  reads \<open>prev_loc[0]\<close>.\<close>

definition location_payload ::
  "'a globals_scheme \<Rightarrow> coord \<Rightarrow> coord option \<Rightarrow> string \<Rightarrow> location_answer" where
  "location_payload g current_loc prev_loc next_signal_name =
     (let start_id = (case SIGNAL_NAME_TO_ID g (current_start_name g) of
                        None \<Rightarrow> 0 | Some i \<Rightarrow> i);
          dest_id = (case SIGNAL_NAME_TO_ID g (current_destination_name g) of
                        None \<Rightarrow> 0 | Some i \<Rightarrow> i);
          next_signal_id = (case SIGNAL_NAME_TO_ID g next_signal_name of
                        None \<Rightarrow> 0 | Some i \<Rightarrow> i)
      in case prev_loc of
           None \<Rightarrow> Raised TypeError
         | Some prev \<Rightarrow> Payload (payload current_loc prev start_id dest_id next_signal_id))"

text \<open>Control Panel. (The test \<open>next_signal_name is None\<close> never holds: the loop returns
  a string.)\<close>

definition get_location ::
  "runtime \<Rightarrow> 'a globals_scheme \<Rightarrow> 'a globals_scheme \<times> location_answer" where
  "get_location rt g =
     (case get_next_simulated_location g of
        (g, (None, prev_loc)) \<Rightarrow> (g, Error500 ''error: no route selected'')
      | (g, (Some current_loc, prev_loc)) \<Rightarrow>
          (case find_next_signal_on_route rt g (fst current_loc) (snd current_loc) of
             (g, Inl e) \<Rightarrow> (g, Raised e)
           | (g, Inr next_signal_name) \<Rightarrow>
               (g, location_payload g current_loc prev_loc next_signal_name)))"

text \<open>VSC.\<close>

definition vsc_get_location ::
  "runtime \<Rightarrow> 'a globals_scheme \<Rightarrow> 'a globals_scheme \<times> location_answer" where
  "vsc_get_location rt g =
     (case vsc_get_next_simulated_location g of
        (g, (None, prev_loc)) \<Rightarrow> (g, Error500 ''error: no route selected'')
      | (g, (Some curr_loc, prev_loc)) \<Rightarrow>
          (case vsc_find_next_signal_on_route rt g (fst curr_loc) (snd curr_loc) of
             (g, Inl e) \<Rightarrow> (g, Raised e)
           | (g, Inr nxt_name) \<Rightarrow> (g, location_payload g curr_loc prev_loc nxt_name)))"

text \<open>Simulation Server.\<close>

definition sim_get_location ::
  "runtime \<Rightarrow> nat \<Rightarrow> 'a sim_globals_scheme \<Rightarrow> 'a sim_globals_scheme \<times> location_answer" where
  "sim_get_location rt pick g =
     (case sim_get_next_simulated_location pick g of
        (g, Inl e) \<Rightarrow> (g, Raised e)
      | (g, Inr (None, prev_loc)) \<Rightarrow> (g, Error500 ''error'')
      | (g, Inr (Some current_loc, prev_loc)) \<Rightarrow>
          (case find_next_signal_on_route rt g (fst current_loc) (snd current_loc) of
             (g, Inl e) \<Rightarrow> (g, Raised e)
           | (g, Inr next_signal_name) \<Rightarrow>
               (g, location_payload g current_loc prev_loc next_signal_name)))"

text \<open>Reading a payload back, to say what it encodes: the fields between the commas,
  and the number a string of digits writes.\<close>

fun split_commas :: "string \<Rightarrow> string list" where
  "split_commas [] = [[]]"
| "split_commas (c # cs) =
     (if c = CHR '','' then [] # split_commas cs
      else (case split_commas cs of
              [] \<Rightarrow> [[c]]
            | first # others \<Rightarrow> (c # first) # others))"

definition digit_value :: "char \<Rightarrow> nat" where
  "digit_value c = of_char c - 48"

definition nat_of_digits :: "string \<Rightarrow> nat" where
  "nat_of_digits ds = foldl (\<lambda>n c. 10 * n + digit_value c) 0 ds"

section \<open>Reading the state\<close>

text \<open>The distance the loop of \<open>find_next_signal_on_route\<close> (Control Panel, Simulation
  Server) computes for a waypoint: to its coordinate in the registry, or to latitude 0,
  longitude 0 when it has none.\<close>

definition waypoint_distance ::
  "runtime \<Rightarrow> 'a globals_scheme \<Rightarrow> pyfloat \<Rightarrow> pyfloat \<Rightarrow> string \<Rightarrow> math_error + pyfloat" where
  "waypoint_distance rt g lat lon s =
     (case map_of (SIGNALS g) s of
        None \<Rightarrow> haversine rt lat lon (Finite 0) (Finite 0)
      | Some (s_lat, s_lon) \<Rightarrow> haversine rt lat lon s_lat s_lon)"

text \<open>A waypoint has been reached at a position when that distance is computed and is
  strictly below 0.05 km.\<close>

definition arrived :: "runtime \<Rightarrow> 'a globals_scheme \<Rightarrow> pyfloat \<Rightarrow> pyfloat \<Rightarrow> string \<Rightarrow> bool" where
  "arrived rt g lat lon s =
     (case waypoint_distance rt g lat lon s of
        Inl e \<Rightarrow> False
      | Inr d \<Rightarrow> float_lt d (Finite 0.05))"

text \<open>The waypoints not yet passed, each once, in route order.\<close>

definition unpassed_waypoints :: "'a globals_scheme \<Rightarrow> string list" where
  "unpassed_waypoints g =
     fromkeys (filter (\<lambda>s. s \<notin> set (signals_passed_on_current_route g))
                 (route_signal_waypoints g))"

section \<open>An arithmetic that rounds, and states to evaluate on\<close>

text \<open>The arithmetic without rounding, except that every sum is rounded up by one part
  in \<open>2 ^ 52\<close>: at antipodal points \<open>a\<close> then exceeds 1 and
  \<open>math.sqrt(1 - a)\<close> raises.\<close>

definition rounding_up_math :: runtime where
  "rounding_up_math = exact_math\<lparr>float_add := exact2 (\<lambda>x y. (x + y) * (1 + 1 / 2 ^ 52))\<rparr>"

text \<open>A route from A (at the origin) to B (on the antimeridian), and a route whose only
  waypoint is in no registry.\<close>

definition demo_route :: globals where
  "demo_route = initial_globals
     \<lparr>SIGNALS := [(''A'', (Finite 0, Finite 0)), (''B'', (Finite 0, Finite 180))],
      route_signal_waypoints := [''A'', ''B''],
      current_start_name := ''A'', current_destination_name := ''B''\<rparr>"

definition unknown_waypoint_route :: globals where
  "unknown_waypoint_route = initial_globals
     \<lparr>route_signal_waypoints := [''X''], current_destination_name := ''X''\<rparr>"

text \<open>A registry of A and M at the origin and B on the antimeridian.\<close>

definition three_signals :: globals where
  "three_signals = initial_globals
     \<lparr>SIGNALS := [(''A'', (Finite 0, Finite 0)), (''M'', (Finite 0, Finite 0)),
                  (''B'', (Finite 0, Finite 180))]\<rparr>"

text \<open>The table of the Control Panel and the VSC file; the server after
  \<open>setup_signal_data\<close>; the server with the route of two points from Chakli Circle to
  Diwalipura Circle freshly activated, and one tick into it; and a provider that answers
  with the two end points of a route from Elora T-Junction to Genda Circle.\<close>

definition KNOWN_SIGNALS :: registry where
  "KNOWN_SIGNALS =
     [(''Chakli Circle'', (Finite 22.308333, Finite 73.165278)),
      (''Diwalipura Circle'', (Finite 22.301806, Finite 73.165500)),
      (''Elora T-Junction'', (Finite 22.315333, Finite 73.161444)),
      (''Genda Circle (Natubhai Circle)'', (Finite 22.309944, Finite 73.158667)),
      (''Gotri Circle'', (Finite 22.315556, Finite 73.138000)),
      (''Hari Nagar Char Rasta'', (Finite 22.311278, Finite 73.153167)),
      (''ISKCON Circle'', (Finite 22.303361, Finite 73.151833)),
      (''Manisha Circle'', (Finite 22.296306, Finite 73.164583)),
      (''Nilamber Circle'', (Finite 22.302000, Finite 73.138944)),
      (''Tandalja SP T-Junction (Natubhai Circle)'', (Finite 22.280444, Finite 73.153194))]"

definition control_panel_ready :: globals where
  "control_panel_ready = setup_signal_data KNOWN_SIGNALS initial_globals"

definition chakli_to_diwalipura_started :: globals where
  "chakli_to_diwalipura_started = control_panel_ready
     \<lparr>route_points := [(Finite 22.308333, Finite 73.165278), (Finite 22.301806, Finite 73.165500)],
      route_signal_waypoints := [''Chakli Circle'', ''Diwalipura Circle''],
      current_start_name := ''Chakli Circle'',
      current_destination_name := ''Diwalipura Circle'',
      mqtt_published :=
        [[(Finite 22.308333, Finite 73.165278), (Finite 22.301806, Finite 73.165500)]]\<rparr>"

definition chakli_to_diwalipura :: globals where
  "chakli_to_diwalipura = chakli_to_diwalipura_started
     \<lparr>current_point_index := 1,
      previous_location := Some (Finite 22.308333, Finite 73.165278),
      signals_passed_on_current_route := [''Chakli Circle'']\<rparr>"

definition elora_to_genda :: "coord \<Rightarrow> coord \<Rightarrow> coord list option" where
  "elora_to_genda start_coord end_coord =
     Some [(Finite 73.161444, Finite 22.315333), (Finite 73.158667, Finite 22.309944)]"

section \<open>Properties of the signal registry\<close>

lemma fold_upd_map_add:
  "fold (\<lambda>(k, v) m. m(k \<mapsto> v)) kvs m = m ++ map_of (rev kvs)"
proof (induction kvs arbitrary: m)
  case Nil
  show ?case by simp
next
  case (Cons kv kvs)
  obtain k v where kv: "kv = (k, v)" by (cases kv)
  have "fold (\<lambda>(k, v) m. m(k \<mapsto> v)) (kv # kvs) m =
        fold (\<lambda>(k, v) m. m(k \<mapsto> v)) kvs (m(k \<mapsto> v))"
    by (simp add: kv)
  also have "\<dots> = m(k \<mapsto> v) ++ map_of (rev kvs)"
    by (rule Cons.IH)
  also have "\<dots> = m ++ map_of (rev (kv # kvs))"
    by (simp add: kv map_add_def fun_eq_iff split: option.splits)
  finally show ?case .
qed

lemma dict_comp_distinct:
  assumes "distinct (map fst kvs)"
  shows "dict_comp kvs = map_of kvs"
proof -
  have "map_of (rev kvs) = map_of kvs"
    using assms by (simp add: map_of_inject_set distinct_rev rev_map [symmetric])
  then show ?thesis by (simp add: dict_comp_def fold_upd_map_add)
qed

lemma id_to_name_items_zip:
  "id_to_name_items known =
     zip (map (\<lambda>i. int i + 1) [0..<length known]) (sorted_signal_names known)"
  by (simp add: id_to_name_items_def enumerate_eq_zip zip_map1 sorted_signal_names_def)

lemma name_to_id_items_zip:
  "map (\<lambda>(i, name). (name, i)) (id_to_name_items known) =
     zip (sorted_signal_names known) (map (\<lambda>i. int i + 1) [0..<length known])"
  by (simp add: id_to_name_items_zip zip_commute [of "sorted_signal_names known"] case_prod_unfold)

lemma ids_distinct: "distinct (map (\<lambda>i. int i + 1) [0..<n])"
  by (simp add: distinct_map inj_on_def)

lemma SIGNAL_ID_TO_NAME_setup:
  "SIGNAL_ID_TO_NAME (setup_signal_data known g) =
     map_of (zip (map (\<lambda>i. int i + 1) [0..<length known]) (sorted_signal_names known))"
proof -
  have "distinct (map fst (id_to_name_items known))"
    by (simp add: id_to_name_items_zip sorted_signal_names_def ids_distinct)
  then show ?thesis
    by (simp add: setup_signal_data_def dict_comp_distinct id_to_name_items_zip)
qed

lemma SIGNAL_NAME_TO_ID_setup:
  assumes "distinct (map fst known)"
  shows "SIGNAL_NAME_TO_ID (setup_signal_data known g) =
     map_of (zip (sorted_signal_names known) (map (\<lambda>i. int i + 1) [0..<length known]))"
proof -
  have "distinct (map fst (map (\<lambda>(i, name). (name, i)) (id_to_name_items known)))"
    using assms by (simp add: name_to_id_items_zip sorted_signal_names_def)
  then show ?thesis
    by (simp add: setup_signal_data_def dict_comp_distinct name_to_id_items_zip)
qed

lemma sorted_signal_names_unique:
  assumes "distinct (map fst known)" "sorted_wrt (<) names" "set names = fst ` set known"
  shows "sorted_signal_names known = names"
proof (rule sorted_distinct_set_unique)
  show "sorted (sorted_signal_names known)" by (simp add: sorted_signal_names_def)
  show "distinct (sorted_signal_names known)" using assms(1) by (simp add: sorted_signal_names_def)
  show "sorted names" using assms(2) by (simp add: strict_sorted_iff)
  show "distinct names" using assms(2) by (simp add: strict_sorted_iff)
  show "set (sorted_signal_names known) = set names"
    using assms(3) by (simp add: sorted_signal_names_def)
qed

lemma ids_range: "set (map (\<lambda>i. int i + 1) [0..<n]) = {1..int n}"
proof (rule set_eqI)
  fix x :: int
  show "x \<in> set (map (\<lambda>i. int i + 1) [0..<n]) \<longleftrightarrow> x \<in> {1..int n}"
  proof
    assume "x \<in> set (map (\<lambda>i. int i + 1) [0..<n])"
    then show "x \<in> {1..int n}" by auto
  next
    assume x: "x \<in> {1..int n}"
    then have "nat (x - 1) < n" and "x = int (nat (x - 1)) + 1" by auto
    then show "x \<in> set (map (\<lambda>i. int i + 1) [0..<n])"
      by (metis (mono_tags, lifting) atLeast0LessThan image_eqI lessThan_iff set_map set_upt)
  qed
qed

lemma length_sorted_signal_names [simp]:
  "length (sorted_signal_names known) = length known"
  by (simp add: sorted_signal_names_def)

text \<open>
  Claim C5. The identifiers depend only on the set of signal names: whenever \<open>names\<close>
  is the strictly ascending list of the names, the name at position \<open>i\<close> (from 0) has
  the id \<open>i + 1\<close> in both tables, the ids are exactly \<open>1..N\<close>, and a second registry with
  the same names (in any order, with any coordinates) yields the same two tables. For the
  names B and A, A gets 1 and B gets 2.
\<close>

theorem signal_ids_sorted_deterministic:
  assumes "distinct (map fst known)" and "distinct (map fst known')"
    and "fst ` set known' = fst ` set known"
    and "sorted_wrt (<) names" and "set names = fst ` set known"
  shows "(\<forall>i<length names.
            SIGNAL_ID_TO_NAME (setup_signal_data known g) (int i + 1) = Some (names ! i) \<and>
            SIGNAL_NAME_TO_ID (setup_signal_data known g) (names ! i) = Some (int i + 1)) \<and>
         dom (SIGNAL_ID_TO_NAME (setup_signal_data known g)) = {1..int (length known)} \<and>
         dom (SIGNAL_NAME_TO_ID (setup_signal_data known g)) = fst ` set known \<and>
         SIGNAL_NAME_TO_ID (setup_signal_data known' g') =
           SIGNAL_NAME_TO_ID (setup_signal_data known g) \<and>
         SIGNAL_ID_TO_NAME (setup_signal_data known' g') =
           SIGNAL_ID_TO_NAME (setup_signal_data known g) \<and>
         SIGNAL_NAME_TO_ID (setup_signal_data [(''B'', cb), (''A'', ca)] g) ''A'' = Some 1 \<and>
         SIGNAL_NAME_TO_ID (setup_signal_data [(''B'', cb), (''A'', ca)] g) ''B'' = Some 2"
proof -
  let ?ids = "\<lambda>n. map (\<lambda>i. int i + 1) [0..<n]"
  have names: "sorted_signal_names known = names"
    using assms(1,4,5) by (rule sorted_signal_names_unique)
  have names': "sorted_signal_names known' = names"
    using assms(2,4) assms(5) [folded assms(3)] by (rule sorted_signal_names_unique)
  have len: "length names = length known" "length known' = length known"
    using names names' length_sorted_signal_names by metis+
  have dist: "distinct names"
    using assms(4) by (simp add: strict_sorted_iff)
  have nth: "SIGNAL_ID_TO_NAME (setup_signal_data known g) (int i + 1) = Some (names ! i) \<and>
             SIGNAL_NAME_TO_ID (setup_signal_data known g) (names ! i) = Some (int i + 1)"
    if "i < length names" for i
  proof -
    have "map_of (zip (?ids (length known)) names) (?ids (length known) ! i) = Some (names ! i)"
      using that len by (intro map_of_zip_nth) (simp_all add: ids_distinct)
    moreover have "map_of (zip names (?ids (length known))) (names ! i) =
        Some (?ids (length known) ! i)"
      using that len dist by (intro map_of_zip_nth) simp_all
    ultimately show ?thesis
      using that len
      by (simp add: SIGNAL_ID_TO_NAME_setup SIGNAL_NAME_TO_ID_setup [OF assms(1)] names)
  qed
  have dom_id: "dom (SIGNAL_ID_TO_NAME (setup_signal_data known g)) = {1..int (length known)}"
    using ids_range [of "length known"]
    by (simp add: SIGNAL_ID_TO_NAME_setup dom_map_of_zip del: set_map)
  have dom_name: "dom (SIGNAL_NAME_TO_ID (setup_signal_data known g)) = fst ` set known"
    using assms(5) len
    by (simp add: SIGNAL_NAME_TO_ID_setup [OF assms(1)] names dom_map_of_zip)
  have same: "SIGNAL_NAME_TO_ID (setup_signal_data known' g') =
                SIGNAL_NAME_TO_ID (setup_signal_data known g)"
    "SIGNAL_ID_TO_NAME (setup_signal_data known' g') =
                SIGNAL_ID_TO_NAME (setup_signal_data known g)"
    using len
    by (simp_all add: SIGNAL_ID_TO_NAME_setup SIGNAL_NAME_TO_ID_setup [OF assms(1)]
        SIGNAL_NAME_TO_ID_setup [OF assms(2)] names names')
  have ex: "SIGNAL_NAME_TO_ID (setup_signal_data [(''B'', cb), (''A'', ca)] g) ''A'' = Some 1"
    "SIGNAL_NAME_TO_ID (setup_signal_data [(''B'', cb), (''A'', ca)] g) ''B'' = Some 2"
    by (simp_all add: setup_signal_data_def dict_comp_def id_to_name_items_def
        sorted_signal_names_def enumerate_eq_zip)
  from nth dom_id dom_name same ex show ?thesis by blast
qed

text \<open>The registry B, A against the registry A, B.\<close>

theorem signal_ids_sorted_deterministic_witness:
  "SIGNAL_ID_TO_NAME (setup_signal_data [(''B'', (Finite 0, Finite 0)), (''A'', (Finite 1, Finite 1))] initial_globals) 1
      = Some ''A'' \<and>
   SIGNAL_NAME_TO_ID (setup_signal_data [(''B'', (Finite 0, Finite 0)), (''A'', (Finite 1, Finite 1))] initial_globals) ''B''
      = Some 2 \<and>
   SIGNAL_NAME_TO_ID (setup_signal_data [(''A'', (Finite 5, Finite 5)), (''B'', (Finite 6, Finite 6))] initial_globals) =
   SIGNAL_NAME_TO_ID (setup_signal_data [(''B'', (Finite 0, Finite 0)), (''A'', (Finite 1, Finite 1))] initial_globals)"
proof -
  have h1: "distinct (map fst [(''B'', (Finite 0, Finite 0)), (''A'', (Finite 1, Finite 1))])" by simp
  have h2: "distinct (map fst [(''A'', (Finite 5, Finite 5)), (''B'', (Finite 6, Finite 6))])" by simp
  have h3: "fst ` set [(''A'', (Finite 5, Finite 5)), (''B'', (Finite 6, Finite 6))] =
            fst ` set [(''B'', (Finite 0, Finite 0)), (''A'', (Finite 1, Finite 1))]" by auto
  have h4: "sorted_wrt (<) [''A'', ''B'']" by simp
  have h5: "set [''A'', ''B''] = fst ` set [(''B'', (Finite 0, Finite 0)), (''A'', (Finite 1, Finite 1))]"
    by auto
  note t = signal_ids_sorted_deterministic [OF h1 h2 h3 h4 h5,
      of initial_globals initial_globals]
  from t have a: "\<forall>i<length [''A'', ''B''].
      SIGNAL_ID_TO_NAME (setup_signal_data [(''B'', (Finite 0, Finite 0)), (''A'', (Finite 1, Finite 1))] initial_globals)
        (int i + 1) = Some ([''A'', ''B''] ! i) \<and>
      SIGNAL_NAME_TO_ID (setup_signal_data [(''B'', (Finite 0, Finite 0)), (''A'', (Finite 1, Finite 1))] initial_globals)
        ([''A'', ''B''] ! i) = Some (int i + 1)"
    by blast
  from a [rule_format, of 0] a [rule_format, of 1] t show ?thesis by simp
qed

section \<open>Properties of the distance\<close>

lemma and_then_Inr [simp]: "and_then (Inr x) f = f x"
  by (simp add: and_then_def)

lemma and_then_Inl [simp]: "and_then (Inl e) f = Inl e"
  by (simp add: and_then_def)

lemma exact1_Finite [simp]: "exact1 f (Finite x) = Inr (Finite (f x))"
  by (simp add: exact1_def)

lemma exact2_Finite [simp]: "exact2 f (Finite x) (Finite y) = Inr (Finite (f x y))"
  by (simp add: exact2_def)

lemma checked_sqrt_Finite [simp]:
  "0 \<le> x \<Longrightarrow> checked_sqrt (Finite x) = Inr (Finite (sqrt x))"
  by (simp add: checked_sqrt_def)

text \<open>The term \<open>a\<close> of the haversine formula lies between 0 and 1, so that without
  rounding neither square root raises.\<close>

lemma haversine_a_bounds:
  fixes p q y :: real
  shows "0 \<le> (sin ((q - p) / 2)) ^ 2 + cos p * cos q * (sin y) ^ 2"
    and "(sin ((q - p) / 2)) ^ 2 + cos p * cos q * (sin y) ^ 2 \<le> 1"
proof -
  let ?u = "(sin ((q - p) / 2)) ^ 2"
  let ?t = "(sin y) ^ 2"
  let ?c = "cos p * cos q"
  have c: "?c = (cos (q - p) + cos (q + p)) / 2"
    by (simp add: cos_diff cos_add)
  have e: "2 * ((q - p) / 2) = q - p" by simp
  have d: "cos (q - p) = 1 - 2 * ?u"
    using cos_double_sin [of "(q - p) / 2"] unfolding e .
  have t: "0 \<le> ?t" "?t \<le> 1"
  proof -
    show "0 \<le> ?t" by simp
    show "?t \<le> 1"
      using sin_cos_squared_add [of y] zero_le_power2 [of "cos y"] by linarith
  qed
  have u: "0 \<le> ?u" "?u \<le> 1"
  proof -
    show "0 \<le> ?u" by simp
    show "?u \<le> 1"
      using sin_cos_squared_add [of "(q - p) / 2"] zero_le_power2 [of "cos ((q - p) / 2)"]
      by linarith
  qed
  define k where "k = cos (q + p)"
  define u where "u = ?u"
  have k: "- 1 \<le> k" "k \<le> 1" by (simp_all add: k_def)
  have cu: "?c = (1 - 2 * u + k) / 2"
    unfolding c d k_def u_def ..
  have lo: "- ?u \<le> ?c"
    unfolding cu u_def [symmetric] using k by (simp add: field_simps)
  have hi: "?c \<le> 1 - ?u"
    unfolding cu u_def [symmetric] using k by (simp add: field_simps)
  have "?c * ?t \<le> 1 - ?u"
  proof (cases "0 \<le> ?c")
    case True
    from mult_left_mono [OF t(2) this] have "?c * ?t \<le> ?c * 1" .
    with hi show ?thesis by linarith
  next
    case False
    then have "?c \<le> 0" by simp
    from mult_nonpos_nonneg [OF this t(1)] have "?c * ?t \<le> 0" .
    with u(2) show ?thesis by linarith
  qed
  then show "?u + ?c * ?t \<le> 1" by linarith
  have "- ?u \<le> ?c * ?t"
  proof (cases "0 \<le> ?c")
    case True
    from mult_nonneg_nonneg [OF this t(1)] have "0 \<le> ?c * ?t" .
    with u(1) show ?thesis by linarith
  next
    case False
    then have "?c \<le> 0" by simp
    from mult_left_mono_neg [OF t(2) this] have "?c * 1 \<le> ?c * ?t" .
    with lo show ?thesis by linarith
  qed
  then show "0 \<le> ?u + ?c * ?t" by linarith
qed

lemma haversine_exact_returns:
  "\<exists>d. haversine exact_math (Finite lat1) (Finite lon1) (Finite lat2) (Finite lon2) =
         Inr (Finite d)"
proof -
  let ?p = "lat1 * pi / 180" and ?q = "lat2 * pi / 180"
  let ?y = "(lon2 * pi / 180 - lon1 * pi / 180) / 2"
  let ?a = "(sin ((?q - ?p) / 2)) ^ 2 + cos ?p * cos ?q * (sin ?y) ^ 2"
  have a: "0 \<le> ?a" "0 \<le> 1 - ?a"
    using haversine_a_bounds [of ?q ?p ?y] by simp_all
  have two: "nat \<lfloor>2 :: real\<rfloor> = 2" by simp
  show ?thesis
    unfolding haversine_def exact_math_def runtime.simps and_then_Inr exact1_Finite
      exact2_Finite two checked_sqrt_Finite [OF a(1)] checked_sqrt_Finite [OF a(2)]
    by blast
qed

lemma haversine_exact_same:
  "haversine exact_math (Finite lat) (Finite lon) (Finite lat) (Finite lon) = Inr (Finite 0)"
  by (simp add: haversine_def exact_math_def real_atan2_def checked_sqrt_def)

lemma haversine_exact_antimeridian:
  "haversine exact_math (Finite 0) (Finite 0) (Finite 0) (Finite 180) = Inr (Finite (6371 * pi))"
  by (simp add: haversine_def exact_math_def real_atan2_def checked_sqrt_def)

lemma haversine_exact_antimeridian':
  "haversine exact_math (Finite 0) (Finite 180) (Finite 0) (Finite 0) = Inr (Finite (6371 * pi))"
  by (simp add: haversine_def exact_math_def real_atan2_def checked_sqrt_def)

lemma far_antimeridian:
  "\<not> float_lt (Finite (6371 * pi)) (Finite 0.05)"
  "\<not> float_lt (Finite (6371 * pi)) WAYPOINT_PROXIMITY_KM"
  using pi_ge_two by (simp_all add: WAYPOINT_PROXIMITY_KM_def)

lemma near_zero:
  "float_lt (Finite 0) (Finite 0.05)"
  "float_lt (Finite 0) WAYPOINT_PROXIMITY_KM"
  by (simp_all add: WAYPOINT_PROXIMITY_KM_def)

section \<open>Properties of signal progress\<close>

lemma while_body_None:
  assumes "next_unpassed (route_signal_waypoints g) (signals_passed_on_current_route g) = None"
  shows "while_body rt g lat lon = Return g (current_destination_name g)"
  using assms by (simp add: while_body_def)

lemma while_body_Some:
  assumes "next_unpassed (route_signal_waypoints g) (signals_passed_on_current_route g) = Some s"
  shows "while_body rt g lat lon =
           (case waypoint_distance rt g lat lon s of
              Inl e \<Rightarrow> Raise g (MathError e)
            | Inr d \<Rightarrow>
                if float_lt d (Finite 0.05)
                then Continue (g\<lparr>signals_passed_on_current_route :=
                                   signals_passed_on_current_route g @ [s]\<rparr>)
                else Return g s)"
  using assms next_unpassed_Some(2) [OF assms]
  by (simp add: while_body_def waypoint_distance_def split: option.splits prod.splits sum.splits)

lemma find_next_Return:
  "while_body rt g lat lon = Return g' name \<Longrightarrow>
     find_next_signal_on_route rt g lat lon = (g', Inr name)"
  by (subst find_next_signal_on_route.simps) simp

lemma find_next_Raise:
  "while_body rt g lat lon = Raise g' e \<Longrightarrow>
     find_next_signal_on_route rt g lat lon = (g', Inl e)"
  by (subst find_next_signal_on_route.simps) simp

lemma find_next_Continue:
  "while_body rt g lat lon = Continue g' \<Longrightarrow>
     find_next_signal_on_route rt g lat lon = find_next_signal_on_route rt g' lat lon"
  by (subst find_next_signal_on_route.simps) simp

lemma fromkeys_acc_filter:
  "fromkeys_acc acc xs = acc @ fromkeys_acc [] (filter (\<lambda>y. y \<notin> set acc) xs)"
proof (induction "length xs" arbitrary: xs acc rule: less_induct)
  case less
  show ?case
  proof (cases xs)
    case Nil
    then show ?thesis by simp
  next
    case (Cons x xs')
    show ?thesis
    proof (cases "x \<in> set acc")
      case True
      with Cons less [of xs' acc] show ?thesis by simp
    next
      case False
      have 1: "fromkeys_acc acc xs = fromkeys_acc (acc @ [x]) xs'"
        using Cons False by simp
      have 2: "fromkeys_acc (acc @ [x]) xs' =
               (acc @ [x]) @ fromkeys_acc [] (filter (\<lambda>y. y \<notin> set (acc @ [x])) xs')"
        using Cons by (intro less) simp
      have 3: "filter (\<lambda>y. y \<notin> set (acc @ [x])) xs' =
               filter (\<lambda>y. y \<notin> set [x]) (filter (\<lambda>y. y \<notin> set acc) xs')"
        by (simp add: conj_commute)
      have 4: "fromkeys_acc [x] (filter (\<lambda>y. y \<notin> set acc) xs') =
               [x] @ fromkeys_acc []
                 (filter (\<lambda>y. y \<notin> set [x]) (filter (\<lambda>y. y \<notin> set acc) xs'))"
        using Cons by (intro less) (simp add: less_Suc_eq_le)
      have 5: "fromkeys_acc [] (filter (\<lambda>y. y \<notin> set acc) xs) =
               fromkeys_acc [x] (filter (\<lambda>y. y \<notin> set acc) xs')"
        using Cons False by simp
      show ?thesis
        unfolding 1 2 3 5 4 by simp
    qed
  qed
qed

lemma fromkeys_Nil [simp]: "fromkeys [] = []"
  by (simp add: fromkeys_def)

lemma fromkeys_Cons: "fromkeys (x # xs) = x # fromkeys (filter (\<lambda>y. y \<noteq> x) xs)"
  using fromkeys_acc_filter [of "[x]" xs] by (simp add: fromkeys_def)

lemma set_fromkeys [simp]: "set (fromkeys xs) = set xs"
proof (induction "length xs" arbitrary: xs rule: less_induct)
  case less
  show ?case
  proof (cases xs)
    case Nil
    then show ?thesis by simp
  next
    case (Cons x xs')
    have "set (fromkeys (filter (\<lambda>y. y \<noteq> x) xs')) = set (filter (\<lambda>y. y \<noteq> x) xs')"
      using Cons by (intro less) (simp add: less_Suc_eq_le)
    with Cons show ?thesis by (auto simp: fromkeys_Cons)
  qed
qed

lemma distinct_fromkeys [simp]: "distinct (fromkeys xs)"
proof (induction "length xs" arbitrary: xs rule: less_induct)
  case less
  show ?case
  proof (cases xs)
    case Nil
    then show ?thesis by simp
  next
    case (Cons x xs')
    have "distinct (fromkeys (filter (\<lambda>y. y \<noteq> x) xs'))"
      using Cons by (intro less) (simp add: less_Suc_eq_le)
    with Cons show ?thesis by (simp add: fromkeys_Cons)
  qed
qed

lemma fromkeys_distinct: "distinct xs \<Longrightarrow> fromkeys xs = xs"
proof (induction xs)
  case Nil
  show ?case by simp
next
  case (Cons x xs)
  then have "filter (\<lambda>y. y \<noteq> x) xs = xs" by (auto simp: filter_id_conv)
  with Cons show ?case by (simp add: fromkeys_Cons)
qed

lemma find_Some_filter:
  "find P xs = Some s \<Longrightarrow> \<exists>rest. filter P xs = s # rest"
  by (induction xs) (auto split: if_splits)

lemma find_None_filter: "find P xs = None \<Longrightarrow> filter P xs = []"
  by (induction xs) (auto split: if_splits)

lemma unpassed_Some_fromkeys:
  assumes "next_unpassed ws passed = Some s"
  shows "fromkeys (filter (\<lambda>x. x \<notin> set passed) ws) =
         s # fromkeys (filter (\<lambda>x. x \<notin> set (passed @ [s])) ws)"
proof -
  from assms obtain rest where rest: "filter (\<lambda>x. x \<notin> set passed) ws = s # rest"
    unfolding next_unpassed_def by (blast dest: find_Some_filter)
  have "filter (\<lambda>x. x \<notin> set (passed @ [s])) ws =
        filter (\<lambda>y. y \<noteq> s) (filter (\<lambda>x. x \<notin> set passed) ws)"
    by (simp add: conj_commute)
  also have "\<dots> = filter (\<lambda>y. y \<noteq> s) rest" by (simp add: rest)
  finally show ?thesis by (simp add: rest fromkeys_Cons)
qed

lemma waypoint_distance_passed_update [simp]:
  "waypoint_distance rt (g\<lparr>signals_passed_on_current_route := p\<rparr>) lat lon =
     waypoint_distance rt g lat lon"
  by (simp add: waypoint_distance_def fun_eq_iff)

lemma arrived_passed_update [simp]:
  "arrived rt (g\<lparr>signals_passed_on_current_route := p\<rparr>) lat lon = arrived rt g lat lon"
  by (simp add: arrived_def fun_eq_iff)

lemma find_next_closed_form:
  "find_next_signal_on_route rt g lat lon =
     (g\<lparr>signals_passed_on_current_route :=
          signals_passed_on_current_route g @
          takeWhile (arrived rt g lat lon) (unpassed_waypoints g)\<rparr>,
      case dropWhile (arrived rt g lat lon) (unpassed_waypoints g) of
        [] \<Rightarrow> Inr (current_destination_name g)
      | s # rest \<Rightarrow>
          (case waypoint_distance rt g lat lon s of
             Inl e \<Rightarrow> Inl (MathError e)
           | Inr d \<Rightarrow> Inr s))"
proof (induction rt g lat lon rule: find_next_signal_on_route.induct)
  case (1 rt g lat lon)
  show ?case
  proof (cases "next_unpassed (route_signal_waypoints g) (signals_passed_on_current_route g)")
    case None
    then have "filter (\<lambda>s. s \<notin> set (signals_passed_on_current_route g))
                 (route_signal_waypoints g) = []"
      unfolding next_unpassed_def by (rule find_None_filter)
    then show ?thesis
      using find_next_Return [OF while_body_None [OF None], of rt lat lon]
      by (simp add: unpassed_waypoints_def)
  next
    case (Some s)
    have u: "unpassed_waypoints g =
        s # unpassed_waypoints (g\<lparr>signals_passed_on_current_route :=
                                     signals_passed_on_current_route g @ [s]\<rparr>)"
      using unpassed_Some_fromkeys [OF Some] by (simp add: unpassed_waypoints_def)
    note body = while_body_Some [OF Some, of rt lat lon]
    show ?thesis
    proof (cases "waypoint_distance rt g lat lon s")
      case (Inl e)
      with body have "while_body rt g lat lon = Raise g (MathError e)" by simp
      from find_next_Raise [OF this] Inl show ?thesis
        by (subst (1 2) u) (simp add: arrived_def)
    next
      case (Inr d)
      show ?thesis
      proof (cases "float_lt d (Finite 0.05)")
        case True
        let ?g' = "g\<lparr>signals_passed_on_current_route :=
                        signals_passed_on_current_route g @ [s]\<rparr>"
        from body Inr True have b: "while_body rt g lat lon = Continue ?g'" by simp
        have arr: "arrived rt g lat lon s" using Inr True by (simp add: arrived_def)
        from "1.IH" [OF b] find_next_Continue [OF b] arr show ?thesis
          by (subst (1 2) u) (simp cong: list.case_cong)
      next
        case False
        from body Inr False have b: "while_body rt g lat lon = Return g s" by simp
        have arr: "\<not> arrived rt g lat lon s" using Inr False by (simp add: arrived_def)
        from find_next_Return [OF b] arr Inr show ?thesis
          by (subst (1 2) u) simp
      qed
    qed
  qed
qed

lemma find_next_exit:
  "find_next_signal_on_route rt g lat lon = (g', answer) \<Longrightarrow>
     while_body rt g' lat lon =
       (case answer of Inr name \<Rightarrow> Return g' name | Inl e \<Rightarrow> Raise g' e)"
proof (induction rt g lat lon rule: find_next_signal_on_route.induct)
  case (1 rt g lat lon)
  show ?case
  proof (cases "while_body rt g lat lon")
    case (Return g1 name1)
    from find_next_Return [OF Return] "1.prems" have "g1 = g'" "answer = Inr name1" by simp_all
    moreover from Return have "g1 = g"
      by (auto simp: while_body_def split: option.splits prod.splits sum.splits if_splits)
    ultimately show ?thesis using Return by simp
  next
    case (Raise g1 e)
    from find_next_Raise [OF Raise] "1.prems" have "g1 = g'" "answer = Inl e" by simp_all
    moreover from Raise have "g1 = g"
      by (auto simp: while_body_def split: option.splits prod.splits sum.splits if_splits)
    ultimately show ?thesis using Raise by simp
  next
    case (Continue g1)
    from find_next_Continue [OF Continue] "1.prems" "1.IH" [OF Continue] show ?thesis by simp
  qed
qed

lemma while_body_Return_cases:
  assumes "while_body rt g lat lon = Return g name"
  shows "next_unpassed (route_signal_waypoints g) (signals_passed_on_current_route g) = Some name \<and>
           (\<exists>d. waypoint_distance rt g lat lon name = Inr d \<and> \<not> float_lt d (Finite 0.05)) \<or>
         next_unpassed (route_signal_waypoints g) (signals_passed_on_current_route g) = None \<and>
           name = current_destination_name g"
proof (cases "next_unpassed (route_signal_waypoints g) (signals_passed_on_current_route g)")
  case None
  with assms while_body_None [OF None, of rt lat lon] show ?thesis by simp
next
  case (Some s)
  with assms while_body_Some [OF Some, of rt lat lon] show ?thesis
    by (auto split: sum.splits if_splits)
qed

lemma while_body_Raise_cases:
  assumes "while_body rt g lat lon = Raise g e"
  shows "\<exists>s me. next_unpassed (route_signal_waypoints g) (signals_passed_on_current_route g)
                  = Some s \<and>
                waypoint_distance rt g lat lon s = Inl me \<and> e = MathError me"
proof (cases "next_unpassed (route_signal_waypoints g) (signals_passed_on_current_route g)")
  case None
  with assms while_body_None [OF None, of rt lat lon] show ?thesis by simp
next
  case (Some s)
  with assms while_body_Some [OF Some, of rt lat lon] show ?thesis
    by (auto split: sum.splits if_splits)
qed

lemma haversine_rounding_same:
  "haversine rounding_up_math (Finite lat) (Finite lon) (Finite lat) (Finite lon) = Inr (Finite 0)"
  by (simp add: haversine_def rounding_up_math_def exact_math_def real_atan2_def checked_sqrt_def)

lemma haversine_rounding_antimeridian:
  "haversine rounding_up_math (Finite 0) (Finite 0) (Finite 0) (Finite 180) = Inl ValueError"
  by (simp add: haversine_def rounding_up_math_def exact_math_def real_atan2_def checked_sqrt_def)

lemma demo_unpassed: "unpassed_waypoints demo_route = [''A'', ''B'']"
  by (simp add: unpassed_waypoints_def demo_route_def initial_globals_def fromkeys_Cons)

lemma demo_distance:
  "waypoint_distance exact_math demo_route (Finite 0) (Finite 0) ''A'' = Inr (Finite 0)"
  "waypoint_distance exact_math demo_route (Finite 0) (Finite 0) ''B'' = Inr (Finite (6371 * pi))"
  "waypoint_distance rounding_up_math demo_route (Finite 0) (Finite 0) ''A'' = Inr (Finite 0)"
  "waypoint_distance rounding_up_math demo_route (Finite 0) (Finite 0) ''B'' = Inl ValueError"
  by (simp_all add: waypoint_distance_def demo_route_def initial_globals_def
      haversine_exact_same haversine_exact_antimeridian haversine_rounding_same
      haversine_rounding_antimeridian)

lemma demo_arrived:
  "arrived exact_math demo_route (Finite 0) (Finite 0) ''A''"
  "\<not> arrived exact_math demo_route (Finite 0) (Finite 0) ''B''"
  "arrived rounding_up_math demo_route (Finite 0) (Finite 0) ''A''"
  "\<not> arrived rounding_up_math demo_route (Finite 0) (Finite 0) ''B''"
  using far_antimeridian by (simp_all add: arrived_def demo_distance)

lemma demo_body:
  "while_body exact_math demo_route (Finite 0) (Finite 0) =
     Continue (demo_route\<lparr>signals_passed_on_current_route := [''A'']\<rparr>)"
proof -
  have "next_unpassed (route_signal_waypoints demo_route)
          (signals_passed_on_current_route demo_route) = Some ''A''"
    by (simp add: demo_route_def initial_globals_def next_unpassed_def)
  from while_body_Some [OF this, of exact_math "Finite 0" "Finite 0"] show ?thesis
    by (simp add: demo_distance) (simp add: demo_route_def initial_globals_def)
qed

text \<open>
  Claim C7. One call appends to the passed list exactly the leading waypoints of the
  unpassed ones that are strictly within 0.05 km of the position, each once and none that
  was passed before. The scan stops at the first unpassed waypoint that is not within the
  radius: the call returns that waypoint when its distance was computed, and the distance
  is then not below 0.05 km; it raises the arithmetic error when computing that distance
  raised; and it returns the destination when no waypoint is left. This holds for every
  arithmetic \<open>rt\<close>.
\<close>

theorem next_waypoint_single_call:
  "find_next_signal_on_route rt g lat lon =
     (g\<lparr>signals_passed_on_current_route :=
          signals_passed_on_current_route g @
          takeWhile (arrived rt g lat lon) (unpassed_waypoints g)\<rparr>,
      case dropWhile (arrived rt g lat lon) (unpassed_waypoints g) of
        [] \<Rightarrow> Inr (current_destination_name g)
      | s # rest \<Rightarrow>
          (case waypoint_distance rt g lat lon s of
             Inl e \<Rightarrow> Inl (MathError e)
           | Inr d \<Rightarrow> Inr s)) \<and>
   distinct (takeWhile (arrived rt g lat lon) (unpassed_waypoints g)) \<and>
   set (takeWhile (arrived rt g lat lon) (unpassed_waypoints g)) \<inter>
     set (signals_passed_on_current_route g) = {} \<and>
   (case find_next_signal_on_route rt g lat lon of
      (g', Inr name) \<Rightarrow>
        next_unpassed (route_signal_waypoints g') (signals_passed_on_current_route g') = Some name \<and>
          (\<exists>d. waypoint_distance rt g' lat lon name = Inr d \<and> \<not> float_lt d (Finite 0.05)) \<or>
        next_unpassed (route_signal_waypoints g') (signals_passed_on_current_route g') = None \<and>
          name = current_destination_name g'
    | (g', Inl e) \<Rightarrow>
        (\<exists>s me. next_unpassed (route_signal_waypoints g') (signals_passed_on_current_route g')
                  = Some s \<and>
                waypoint_distance rt g' lat lon s = Inl me \<and> e = MathError me))"
proof -
  have "distinct (unpassed_waypoints g)"
    by (simp add: unpassed_waypoints_def)
  then have d: "distinct (takeWhile (arrived rt g lat lon) (unpassed_waypoints g))"
    by (rule distinct_takeWhile)
  have "set (takeWhile (arrived rt g lat lon) (unpassed_waypoints g))
          \<subseteq> set (unpassed_waypoints g)"
    by (auto dest: set_takeWhileD)
  then have i: "set (takeWhile (arrived rt g lat lon) (unpassed_waypoints g)) \<inter>
     set (signals_passed_on_current_route g) = {}"
    by (auto simp: unpassed_waypoints_def)
  obtain g' answer where r: "find_next_signal_on_route rt g lat lon = (g', answer)"
    by (cases "find_next_signal_on_route rt g lat lon")
  note ex = find_next_exit [OF r]
  have e: "case find_next_signal_on_route rt g lat lon of
      (g', Inr name) \<Rightarrow>
        next_unpassed (route_signal_waypoints g') (signals_passed_on_current_route g') = Some name \<and>
          (\<exists>d. waypoint_distance rt g' lat lon name = Inr d \<and> \<not> float_lt d (Finite 0.05)) \<or>
        next_unpassed (route_signal_waypoints g') (signals_passed_on_current_route g') = None \<and>
          name = current_destination_name g'
    | (g', Inl e) \<Rightarrow>
        (\<exists>s me. next_unpassed (route_signal_waypoints g') (signals_passed_on_current_route g')
                  = Some s \<and>
                waypoint_distance rt g' lat lon s = Inl me \<and> e = MathError me)"
  proof (cases answer)
    case (Inl err)
    with ex have "while_body rt g' lat lon = Raise g' err" by simp
    from while_body_Raise_cases [OF this] r Inl show ?thesis by simp
  next
    case (Inr name)
    with ex have "while_body rt g' lat lon = Return g' name" by simp
    from while_body_Return_cases [OF this] r Inr show ?thesis by simp
  qed
  from find_next_closed_form [of rt g lat lon] d i e show ?thesis by blast
qed

text \<open>At the origin A is passed. Without rounding B, which is antipodal, is returned; with
  the arithmetic that rounds the sum up, the distance to B raises after A was appended.\<close>

theorem next_waypoint_single_call_witness:
  "find_next_signal_on_route exact_math demo_route (Finite 0) (Finite 0) =
     (demo_route\<lparr>signals_passed_on_current_route := [''A'']\<rparr>, Inr ''B'') \<and>
   find_next_signal_on_route rounding_up_math demo_route (Finite 0) (Finite 0) =
     (demo_route\<lparr>signals_passed_on_current_route := [''A'']\<rparr>, Inl (MathError ValueError))"
proof -
  have p: "signals_passed_on_current_route demo_route = []"
    by (simp add: demo_route_def initial_globals_def)
  from next_waypoint_single_call [of exact_math demo_route "Finite 0" "Finite 0"]
  have 1: "find_next_signal_on_route exact_math demo_route (Finite 0) (Finite 0) =
     (demo_route\<lparr>signals_passed_on_current_route := [''A'']\<rparr>, Inr ''B'')"
    by (simp add: demo_unpassed demo_arrived demo_distance p)
  from next_waypoint_single_call [of rounding_up_math demo_route "Finite 0" "Finite 0"]
  have 2: "find_next_signal_on_route rounding_up_math demo_route (Finite 0) (Finite 0) =
     (demo_route\<lparr>signals_passed_on_current_route := [''A'']\<rparr>, Inl (MathError ValueError))"
    by (simp add: demo_unpassed demo_arrived demo_distance p)
  from 1 2 show ?thesis by (rule conjI)
qed

lemma fuel_enough:
  "\<exists>n \<le> length (filter (\<lambda>s. s \<notin> set (signals_passed_on_current_route g))
                    (route_signal_waypoints g)) + 1.
      find_next_signal_fuel n rt g lat lon = Some (find_next_signal_on_route rt g lat lon)"
proof (induction rt g lat lon rule: find_next_signal_on_route.induct)
  case (1 rt g lat lon)
  show ?case
  proof (cases "while_body rt g lat lon")
    case (Return g1 name1)
    then have "find_next_signal_fuel (Suc 0) rt g lat lon =
        Some (find_next_signal_on_route rt g lat lon)"
      by (simp add: find_next_Return)
    then show ?thesis by (intro exI [of _ "Suc 0"]) simp
  next
    case (Raise g1 e)
    then have "find_next_signal_fuel (Suc 0) rt g lat lon =
        Some (find_next_signal_on_route rt g lat lon)"
      by (simp add: find_next_Raise)
    then show ?thesis by (intro exI [of _ "Suc 0"]) simp
  next
    case (Continue g1)
    from while_body_Continue [OF Continue] obtain s where
      s: "s \<in> set (route_signal_waypoints g)" "s \<notin> set (signals_passed_on_current_route g)"
        "g1 = g\<lparr>signals_passed_on_current_route := signals_passed_on_current_route g @ [s]\<rparr>"
      by blast
    from "1.IH" [OF Continue] obtain n where
      n: "n \<le> length (filter (\<lambda>s. s \<notin> set (signals_passed_on_current_route g1))
                    (route_signal_waypoints g1)) + 1"
        "find_next_signal_fuel n rt g1 lat lon = Some (find_next_signal_on_route rt g1 lat lon)"
      by blast
    have "length (filter (\<lambda>s. s \<notin> set (signals_passed_on_current_route g1))
                    (route_signal_waypoints g1)) <
          length (filter (\<lambda>s. s \<notin> set (signals_passed_on_current_route g))
                    (route_signal_waypoints g))"
      using length_filter_unpassed_less [OF s(1,2)] by (simp add: s(3))
    with n(1) have "Suc n \<le> length (filter (\<lambda>s. s \<notin> set (signals_passed_on_current_route g))
                    (route_signal_waypoints g)) + 1"
      by simp
    moreover have "find_next_signal_fuel (Suc n) rt g lat lon =
        Some (find_next_signal_on_route rt g lat lon)"
      using Continue n(2) by (simp add: find_next_Continue)
    ultimately show ?thesis by blast
  qed
qed

lemma fuel_mono:
  "find_next_signal_fuel n rt g lat lon = Some r \<Longrightarrow> n \<le> m \<Longrightarrow>
     find_next_signal_fuel m rt g lat lon = Some r"
proof (induction n arbitrary: g m)
  case 0
  then show ?case by simp
next
  case (Suc n)
  then obtain m' where m: "m = Suc m'" "n \<le> m'" by (cases m) simp_all
  show ?case
  proof (cases "while_body rt g lat lon")
    case (Return g1 name1)
    with Suc.prems(1) show ?thesis by (simp add: m)
  next
    case (Raise g1 e)
    with Suc.prems(1) show ?thesis by (simp add: m)
  next
    case (Continue g1)
    with Suc.prems(1) Suc.IH [of g1 m'] m show ?thesis by simp
  qed
qed

text \<open>
  Claim C9. A pass through the loop body that neither returns nor raises appends one
  waypoint of the route that was not in the passed list, and the loop is over within
  \<open>len(route_signal_waypoints) + 1\<close> passes, for every arithmetic, state and position.
\<close>

theorem next_waypoint_loop_terminates:
  "(\<forall>g'. while_body rt g lat lon = Continue g' \<longrightarrow>
      (\<exists>s. s \<in> set (route_signal_waypoints g) \<and>
           s \<notin> set (signals_passed_on_current_route g) \<and>
           g' = g\<lparr>signals_passed_on_current_route :=
                    signals_passed_on_current_route g @ [s]\<rparr>)) \<and>
   (\<exists>n \<le> length (route_signal_waypoints g) + 1.
      find_next_signal_fuel n rt g lat lon = Some (find_next_signal_on_route rt g lat lon)) \<and>
   find_next_signal_fuel (length (route_signal_waypoints g) + 1) rt g lat lon =
      Some (find_next_signal_on_route rt g lat lon)"
proof -
  from fuel_enough [of g rt lat lon] obtain n where
    n: "n \<le> length (filter (\<lambda>s. s \<notin> set (signals_passed_on_current_route g))
                    (route_signal_waypoints g)) + 1"
      "find_next_signal_fuel n rt g lat lon = Some (find_next_signal_on_route rt g lat lon)"
    by blast
  have "length (filter (\<lambda>s. s \<notin> set (signals_passed_on_current_route g))
          (route_signal_waypoints g)) \<le> length (route_signal_waypoints g)"
    by simp
  with n(1) have le: "n \<le> length (route_signal_waypoints g) + 1" by linarith
  from fuel_mono [OF n(2) le] n(2) le while_body_Continue [of rt g lat lon]
  show ?thesis by blast
qed

text \<open>On the route A, B at the origin the first pass appends A.\<close>

theorem next_waypoint_loop_terminates_witness:
  "(\<exists>s. s \<in> set (route_signal_waypoints demo_route) \<and>
        s \<notin> set (signals_passed_on_current_route demo_route) \<and>
        demo_route\<lparr>signals_passed_on_current_route := [''A'']\<rparr> =
          demo_route\<lparr>signals_passed_on_current_route :=
                       signals_passed_on_current_route demo_route @ [s]\<rparr>) \<and>
   find_next_signal_fuel 3 exact_math demo_route (Finite 0) (Finite 0) =
     Some (find_next_signal_on_route exact_math demo_route (Finite 0) (Finite 0))"
proof -
  note t = next_waypoint_loop_terminates [of exact_math demo_route "Finite 0" "Finite 0"]
  have len: "length (route_signal_waypoints demo_route) + 1 = 3"
    by (simp add: demo_route_def)
  from t demo_body
  have "\<exists>s. s \<in> set (route_signal_waypoints demo_route) \<and>
        s \<notin> set (signals_passed_on_current_route demo_route) \<and>
        demo_route\<lparr>signals_passed_on_current_route := [''A'']\<rparr> =
          demo_route\<lparr>signals_passed_on_current_route :=
                       signals_passed_on_current_route demo_route @ [s]\<rparr>"
    by blast
  moreover from t
  have "find_next_signal_fuel (length (route_signal_waypoints demo_route) + 1)
          exact_math demo_route (Finite 0) (Finite 0) =
          Some (find_next_signal_on_route exact_math demo_route (Finite 0) (Finite 0))"
    by blast
  then have "find_next_signal_fuel 3 exact_math demo_route (Finite 0) (Finite 0) =
          Some (find_next_signal_on_route exact_math demo_route (Finite 0) (Finite 0))"
    by (simp only: len)
  ultimately show ?thesis by blast
qed

lemma find_next_all_passed:
  assumes "set (route_signal_waypoints g) \<subseteq> set (signals_passed_on_current_route g)"
  shows "find_next_signal_on_route rt g lat lon = (g, Inr (current_destination_name g))"
proof -
  have "filter (\<lambda>s. s \<notin> set (signals_passed_on_current_route g)) (route_signal_waypoints g) = []"
    using assms by (auto simp: filter_empty_conv)
  then show ?thesis by (simp add: find_next_closed_form unpassed_waypoints_def)
qed

lemma fst_calls_Cons:
  "fst (next_signal_calls rt g ((lat, lon) # ps)) =
     fst (next_signal_calls rt (fst (find_next_signal_on_route rt g lat lon)) ps)"
  by (simp add: split_beta)

lemma calls_grow:
  "\<exists>new. fst (next_signal_calls rt g ps) =
      g\<lparr>signals_passed_on_current_route := signals_passed_on_current_route g @ new\<rparr>"
proof (induction ps arbitrary: g)
  case Nil
  show ?case by (intro exI [of _ "[]"]) simp
next
  case (Cons p ps)
  obtain lat lon where p: "p = (lat, lon)" by (cases p)
  let ?new = "takeWhile (arrived rt g lat lon) (unpassed_waypoints g)"
  let ?g1 = "g\<lparr>signals_passed_on_current_route := signals_passed_on_current_route g @ ?new\<rparr>"
  have 1: "fst (find_next_signal_on_route rt g lat lon) = ?g1"
    by (simp add: find_next_closed_form)
  from Cons.IH [of ?g1] obtain new' where
    2: "fst (next_signal_calls rt ?g1 ps) =
         ?g1\<lparr>signals_passed_on_current_route := signals_passed_on_current_route ?g1 @ new'\<rparr>"
    by blast
  have "fst (next_signal_calls rt g (p # ps)) = fst (next_signal_calls rt ?g1 ps)"
    unfolding p fst_calls_Cons 1 ..
  also have "\<dots> = g\<lparr>signals_passed_on_current_route :=
                       signals_passed_on_current_route g @ (?new @ new')\<rparr>"
    using 2 by simp
  finally show ?case by blast
qed

lemma calls_all_passed:
  assumes "set (route_signal_waypoints g) \<subseteq> set (signals_passed_on_current_route g)"
  shows "next_signal_calls rt g ps = (g, replicate (length ps) (Inr (current_destination_name g)))"
proof (induction ps)
  case Nil
  show ?case by simp
next
  case (Cons p ps)
  obtain lat lon where p: "p = (lat, lon)" by (cases p)
  from Cons find_next_all_passed [OF assms, of rt lat lon] show ?case by (simp add: p)
qed

text \<open>
  Claim C6. Over any sequence of calls, whether they return or raise, the passed list
  only grows at its end, so no name leaves it, and nothing else of the state changes;
  when every waypoint is passed, each call returns the destination name and leaves the
  state as it is.
\<close>

theorem passed_set_monotone:
  "(\<exists>new. fst (next_signal_calls rt g ps) =
      g\<lparr>signals_passed_on_current_route := signals_passed_on_current_route g @ new\<rparr>) \<and>
   set (signals_passed_on_current_route g) \<subseteq>
     set (signals_passed_on_current_route (fst (next_signal_calls rt g ps))) \<and>
   (set (route_signal_waypoints g) \<subseteq> set (signals_passed_on_current_route g) \<longrightarrow>
      next_signal_calls rt g ps =
        (g, replicate (length ps) (Inr (current_destination_name g))))"
proof -
  from calls_grow [of rt g ps] obtain new where
    new: "fst (next_signal_calls rt g ps) =
      g\<lparr>signals_passed_on_current_route := signals_passed_on_current_route g @ new\<rparr>"
    by blast
  then have "set (signals_passed_on_current_route g) \<subseteq>
     set (signals_passed_on_current_route (fst (next_signal_calls rt g ps)))"
    by simp
  with new calls_all_passed [of g rt ps] show ?thesis by blast
qed

text \<open>Both waypoints passed: two calls, at two positions, return the destination B.\<close>

theorem passed_set_monotone_witness:
  "next_signal_calls exact_math (demo_route\<lparr>signals_passed_on_current_route := [''A'', ''B'']\<rparr>)
       [(Finite 0, Finite 0), (Finite 0, Finite 90)] =
     (demo_route\<lparr>signals_passed_on_current_route := [''A'', ''B'']\<rparr>, [Inr ''B'', Inr ''B''])"
proof -
  let ?g = "demo_route\<lparr>signals_passed_on_current_route := [''A'', ''B'']\<rparr>"
  have "set (route_signal_waypoints ?g) \<subseteq> set (signals_passed_on_current_route ?g)"
    by (simp add: demo_route_def)
  moreover have "current_destination_name ?g = ''B''"
    by (simp add: demo_route_def)
  ultimately show ?thesis
    using passed_set_monotone [of exact_math ?g "[(Finite 0, Finite 0), (Finite 0, Finite 90)]"]
    by (simp add: numeral_2_eq_2)
qed

text \<open>
  Claim C10. When the next unpassed waypoint is in no registry, the loop measures the
  distance to latitude 0, longitude 0. When that distance is below 0.05 km the waypoint is
  appended and the scan goes on; when it is not, the waypoint is returned unpassed; and
  when computing the distance itself raises (under rounding, at a position antipodal to
  the origin), that arithmetic error leaves the call with the state as it was. The missing
  name never raises \<open>KeyError\<close>, the waypoint is in the passed list afterwards
  exactly when the distance was below 0.05 km, and the loop is over after finitely many
  passes.
\<close>

theorem absent_waypoint_at_origin:
  assumes "next_unpassed (route_signal_waypoints g) (signals_passed_on_current_route g) = Some name"
    and "map_of (SIGNALS g) name = None"
  shows "(\<forall>d. haversine rt lat lon (Finite 0) (Finite 0) = Inr d \<and> float_lt d (Finite 0.05) \<longrightarrow>
            find_next_signal_on_route rt g lat lon =
            find_next_signal_on_route rt
              (g\<lparr>signals_passed_on_current_route :=
                   signals_passed_on_current_route g @ [name]\<rparr>) lat lon) \<and>
         (\<forall>d. haversine rt lat lon (Finite 0) (Finite 0) = Inr d \<and> \<not> float_lt d (Finite 0.05) \<longrightarrow>
            find_next_signal_on_route rt g lat lon = (g, Inr name)) \<and>
         (\<forall>e. haversine rt lat lon (Finite 0) (Finite 0) = Inl e \<longrightarrow>
            find_next_signal_on_route rt g lat lon = (g, Inl (MathError e))) \<and>
         (name \<in> set (signals_passed_on_current_route
                        (fst (find_next_signal_on_route rt g lat lon)))
            \<longleftrightarrow> (\<exists>d. haversine rt lat lon (Finite 0) (Finite 0) = Inr d \<and>
                     float_lt d (Finite 0.05))) \<and>
         snd (find_next_signal_on_route rt g lat lon) \<noteq> Inl KeyError \<and>
         (\<exists>n. find_next_signal_fuel n rt g lat lon =
                Some (find_next_signal_on_route rt g lat lon))"
proof -
  have dist: "waypoint_distance rt g lat lon name = haversine rt lat lon (Finite 0) (Finite 0)"
    using assms(2) by (simp add: waypoint_distance_def)
  note body = while_body_Some [OF assms(1), of rt lat lon, unfolded dist]
  have near: "find_next_signal_on_route rt g lat lon =
            find_next_signal_on_route rt
              (g\<lparr>signals_passed_on_current_route :=
                   signals_passed_on_current_route g @ [name]\<rparr>) lat lon"
    if "haversine rt lat lon (Finite 0) (Finite 0) = Inr d \<and> float_lt d (Finite 0.05)" for d
    using that body by (intro find_next_Continue) simp
  have far: "find_next_signal_on_route rt g lat lon = (g, Inr name)"
    if "haversine rt lat lon (Finite 0) (Finite 0) = Inr d \<and> \<not> float_lt d (Finite 0.05)" for d
    using that body by (intro find_next_Return) simp
  have raise: "find_next_signal_on_route rt g lat lon = (g, Inl (MathError e))"
    if "haversine rt lat lon (Finite 0) (Finite 0) = Inl e" for e
    using that body by (intro find_next_Raise) simp
  have notin: "name \<notin> set (signals_passed_on_current_route g)"
    using assms(1) by (rule next_unpassed_Some)
  have u: "unpassed_waypoints g =
        name # unpassed_waypoints (g\<lparr>signals_passed_on_current_route :=
                                     signals_passed_on_current_route g @ [name]\<rparr>)"
    using unpassed_Some_fromkeys [OF assms(1)] by (simp add: unpassed_waypoints_def)
  have arr: "arrived rt g lat lon name \<longleftrightarrow>
      (\<exists>d. haversine rt lat lon (Finite 0) (Finite 0) = Inr d \<and> float_lt d (Finite 0.05))"
    by (auto simp: arrived_def dist split: sum.splits)
  have marked: "name \<in> set (signals_passed_on_current_route
                        (fst (find_next_signal_on_route rt g lat lon)))
            \<longleftrightarrow> (\<exists>d. haversine rt lat lon (Finite 0) (Finite 0) = Inr d \<and>
                     float_lt d (Finite 0.05))"
  proof (cases "arrived rt g lat lon name")
    case True
    then have "name \<in> set (signals_passed_on_current_route
                        (fst (find_next_signal_on_route rt g lat lon)))"
      by (subst find_next_closed_form, subst u) simp
    with True arr show ?thesis by simp
  next
    case False
    then have "signals_passed_on_current_route (fst (find_next_signal_on_route rt g lat lon)) =
        signals_passed_on_current_route g"
      by (subst find_next_closed_form, subst u) simp
    with False arr notin show ?thesis by simp
  qed
  have nokey: "snd (find_next_signal_on_route rt g lat lon) \<noteq> Inl KeyError"
  proof -
    obtain g' answer where r: "find_next_signal_on_route rt g lat lon = (g', answer)"
      by (cases "find_next_signal_on_route rt g lat lon")
    show ?thesis
    proof (cases answer)
      case (Inl err)
      with find_next_exit [OF r] have "while_body rt g' lat lon = Raise g' err" by simp
      from while_body_Raise_cases [OF this] r Inl show ?thesis by auto
    next
      case (Inr n)
      with r show ?thesis by simp
    qed
  qed
  from fuel_enough [of g rt lat lon]
  have "\<exists>n. find_next_signal_fuel n rt g lat lon = Some (find_next_signal_on_route rt g lat lon)"
    by blast
  with near far raise marked nokey show ?thesis by blast
qed

text \<open>The unknown waypoint X, seen from the origin and from the antimeridian, without
  rounding and with the arithmetic that rounds the sum up.\<close>

theorem absent_waypoint_at_origin_witness:
  "find_next_signal_on_route exact_math unknown_waypoint_route (Finite 0) (Finite 0) =
     find_next_signal_on_route exact_math
       (unknown_waypoint_route\<lparr>signals_passed_on_current_route := [''X'']\<rparr>)
       (Finite 0) (Finite 0) \<and>
   ''X'' \<in> set (signals_passed_on_current_route
                 (fst (find_next_signal_on_route exact_math unknown_waypoint_route
                         (Finite 0) (Finite 0)))) \<and>
   find_next_signal_on_route exact_math unknown_waypoint_route (Finite 0) (Finite 180) =
     (unknown_waypoint_route, Inr ''X'') \<and>
   find_next_signal_on_route rounding_up_math unknown_waypoint_route (Finite 0) (Finite 180) =
     (unknown_waypoint_route, Inl (MathError ValueError))"
proof -
  have 1: "next_unpassed (route_signal_waypoints unknown_waypoint_route)
             (signals_passed_on_current_route unknown_waypoint_route) = Some ''X''"
    by (simp add: unknown_waypoint_route_def initial_globals_def next_unpassed_def)
  have 2: "map_of (SIGNALS unknown_waypoint_route) ''X'' = None"
    by (simp add: unknown_waypoint_route_def initial_globals_def)
  have 3: "signals_passed_on_current_route unknown_waypoint_route = []"
    by (simp add: unknown_waypoint_route_def initial_globals_def)
  have 4: "haversine exact_math (Finite 0) (Finite 0) (Finite 0) (Finite 0) = Inr (Finite 0) \<and>
           float_lt (Finite 0) (Finite 0.05)"
    by (simp add: haversine_exact_same)
  have 5: "haversine exact_math (Finite 0) (Finite 180) (Finite 0) (Finite 0) =
             Inr (Finite (6371 * pi)) \<and> \<not> float_lt (Finite (6371 * pi)) (Finite 0.05)"
    using far_antimeridian by (simp add: haversine_exact_antimeridian')
  have 6: "haversine rounding_up_math (Finite 0) (Finite 180) (Finite 0) (Finite 0) =
             Inl ValueError"
    by (simp add: haversine_def rounding_up_math_def exact_math_def real_atan2_def
        checked_sqrt_def)
  note near = absent_waypoint_at_origin [OF 1 2, of exact_math "Finite 0" "Finite 0"]
  note far = absent_waypoint_at_origin [OF 1 2, of exact_math "Finite 0" "Finite 180"]
  note raise = absent_waypoint_at_origin [OF 1 2, of rounding_up_math "Finite 0" "Finite 180"]
  from near 4 have a: "find_next_signal_on_route exact_math unknown_waypoint_route
       (Finite 0) (Finite 0) =
     find_next_signal_on_route exact_math
       (unknown_waypoint_route\<lparr>signals_passed_on_current_route :=
          signals_passed_on_current_route unknown_waypoint_route @ [''X'']\<rparr>)
       (Finite 0) (Finite 0)"
    by blast
  from near 4 have b: "''X'' \<in> set (signals_passed_on_current_route
                 (fst (find_next_signal_on_route exact_math unknown_waypoint_route
                         (Finite 0) (Finite 0))))"
    by blast
  from far 5 have c: "find_next_signal_on_route exact_math unknown_waypoint_route
      (Finite 0) (Finite 180) = (unknown_waypoint_route, Inr ''X'')"
    by blast
  from raise 6 have d: "find_next_signal_on_route rounding_up_math unknown_waypoint_route
      (Finite 0) (Finite 180) = (unknown_waypoint_route, Inl (MathError ValueError))"
    by blast
  from a [unfolded 3 append_Nil] b c d show ?thesis by (intro conjI)
qed

section \<open>Properties of waypoint sequencing\<close>

lemma any_point_near_True:
  "any_point_near rt sig_lat sig_lon pts = Inr True \<Longrightarrow>
     \<exists>(lat, lon) \<in> set pts. \<exists>d. haversine rt lat lon sig_lat sig_lon = Inr d \<and>
        float_lt d WAYPOINT_PROXIMITY_KM"
proof (induction pts)
  case Nil
  then show ?case by simp
next
  case (Cons p pts)
  obtain lat lon where p: "p = (lat, lon)" by (cases p)
  show ?case
  proof (cases "haversine rt lat lon sig_lat sig_lon")
    case (Inl e)
    with Cons.prems show ?thesis by (simp add: p)
  next
    case (Inr d)
    show ?thesis
    proof (cases "float_lt d WAYPOINT_PROXIMITY_KM")
      case True
      with Inr show ?thesis by (auto simp: p)
    next
      case False
      with Inr Cons.prems have "any_point_near rt sig_lat sig_lon pts = Inr True"
        by (simp add: p)
      from Cons.IH [OF this] show ?thesis by auto
    qed
  qed
qed

lemma any_point_near_returns:
  assumes "\<forall>(lat, lon) \<in> set pts. \<exists>d. haversine rt lat lon sig_lat sig_lon = Inr d"
  shows "\<exists>b. any_point_near rt sig_lat sig_lon pts = Inr b"
  using assms by (induction pts) auto

lemma any_point_near_error:
  "any_point_near rt sig_lat sig_lon pts = Inl e \<Longrightarrow> \<exists>me. e = MathError me"
  by (induction pts) (auto split: sum.splits if_splits)

lemma signals_near_path_filter:
  "signals_near_path rt sigs pts = Inr names \<Longrightarrow>
     names = map fst (filter (\<lambda>(name, (sig_lat, sig_lon)).
                any_point_near rt sig_lat sig_lon pts = Inr True) sigs)"
proof (induction sigs arbitrary: names)
  case Nil
  then show ?case by simp
next
  case (Cons sg sigs)
  obtain name sig_lat sig_lon where sg: "sg = (name, (sig_lat, sig_lon))" by (cases sg) auto
  from Cons.prems obtain near rest where
    near: "any_point_near rt sig_lat sig_lon pts = Inr near" and
    rest: "signals_near_path rt sigs pts = Inr rest" and
    names: "names = (if near then name # rest else rest)"
    by (auto simp: sg split: sum.splits)
  from Cons.IH [OF rest] near names show ?case by (simp add: sg)
qed

lemma signals_near_path_returns:
  assumes "\<forall>(name, (sig_lat, sig_lon)) \<in> set sigs.
     \<forall>(lat, lon) \<in> set pts. \<exists>d. haversine rt lat lon sig_lat sig_lon = Inr d"
  shows "\<exists>names. signals_near_path rt sigs pts = Inr names"
  using assms
proof (induction sigs)
  case Nil
  show ?case by simp
next
  case (Cons sg sigs)
  obtain name sig_lat sig_lon where sg: "sg = (name, (sig_lat, sig_lon))" by (cases sg) auto
  from Cons.prems have "\<forall>(lat, lon) \<in> set pts. \<exists>d. haversine rt lat lon sig_lat sig_lon = Inr d"
    by (simp add: sg)
  from any_point_near_returns [OF this] obtain b where
    "any_point_near rt sig_lat sig_lon pts = Inr b" by blast
  moreover from Cons have "\<exists>names. signals_near_path rt sigs pts = Inr names" by simp
  ultimately show ?case by (auto simp: sg)
qed

lemma signals_near_path_error:
  "signals_near_path rt sigs pts = Inl e \<Longrightarrow> \<exists>me. e = MathError me"
proof (induction sigs)
  case Nil
  then show ?case by simp
next
  case (Cons sg sigs)
  obtain name sig_lat sig_lon where sg: "sg = (name, (sig_lat, sig_lon))" by (cases sg) auto
  from Cons show ?case
    by (auto simp: sg split: sum.splits dest: any_point_near_error)
qed

lemma signals_near_path_subset:
  "signals_near_path rt sigs pts = Inr names \<Longrightarrow> set names \<subseteq> fst ` set sigs"
  by (drule signals_near_path_filter) auto

lemma distinct_signals_near_path:
  "distinct (map fst sigs) \<Longrightarrow> signals_near_path rt sigs pts = Inr names \<Longrightarrow> distinct names"
  by (drule signals_near_path_filter) (simp add: distinct_map_filter)

lemma signals_near_path_near:
  assumes "distinct (map fst sigs)" and "signals_near_path rt sigs pts = Inr names"
    and "s \<in> set names"
  shows "\<exists>sig_lat sig_lon. map_of sigs s = Some (sig_lat, sig_lon) \<and>
           (\<exists>(lat, lon) \<in> set pts. \<exists>d. haversine rt lat lon sig_lat sig_lon = Inr d \<and>
               float_lt d WAYPOINT_PROXIMITY_KM)"
proof -
  from signals_near_path_filter [OF assms(2)] assms(3) obtain sig_lat sig_lon where
    mem: "(s, (sig_lat, sig_lon)) \<in> set sigs" and
    near: "any_point_near rt sig_lat sig_lon pts = Inr True"
    by auto
  from assms(1) mem have "map_of sigs s = Some (sig_lat, sig_lon)" by simp
  with any_point_near_True [OF near] show ?thesis by blast
qed

lemma distance_keys_length:
  "distance_keys rt sigs start_lat start_lon ws = Inr keys \<Longrightarrow> length keys = length ws"
  by (induction ws arbitrary: keys) (auto split: option.splits sum.splits)

lemma distance_keys_returns:
  assumes "set ws \<subseteq> fst ` set sigs"
    and "\<forall>(name, (sig_lat, sig_lon)) \<in> set sigs.
           \<exists>d. haversine rt start_lat start_lon sig_lat sig_lon = Inr d"
  shows "\<exists>keys. distance_keys rt sigs start_lat start_lon ws = Inr keys"
  using assms(1)
proof (induction ws)
  case Nil
  show ?case by simp
next
  case (Cons w ws)
  then obtain c where c: "map_of sigs w = Some c"
    by (cases "map_of sigs w") (auto simp: map_of_eq_None_iff)
  obtain sig_lat sig_lon where cc: "c = (sig_lat, sig_lon)" by (cases c)
  from c cc have "(w, (sig_lat, sig_lon)) \<in> set sigs" by (auto dest: map_of_SomeD)
  with assms(2) obtain d where "haversine rt start_lat start_lon sig_lat sig_lon = Inr d"
    by blast
  moreover from Cons obtain keys where "distance_keys rt sigs start_lat start_lon ws = Inr keys"
    by auto
  ultimately show ?case using c cc by simp
qed

lemma distance_keys_error:
  "distance_keys rt sigs start_lat start_lon ws = Inl e \<Longrightarrow>
     (e = KeyError \<and> \<not> set ws \<subseteq> fst ` set sigs) \<or> (\<exists>me. e = MathError me)"
proof (induction ws)
  case Nil
  then show ?case by simp
next
  case (Cons w ws)
  then show ?case
    by (auto simp: map_of_eq_None_iff split: option.splits sum.splits)
qed

lemma set_insert_by_key: "set (insert_by_key x ys) = insert x (set ys)"
  by (induction ys) auto

lemma distinct_insert_by_key:
  "distinct (map snd (insert_by_key x ys)) \<longleftrightarrow>
     snd x \<notin> snd ` set ys \<and> distinct (map snd ys)"
  by (induction ys) (auto simp: set_insert_by_key)

lemma set_stable_sort_by_key: "set (stable_sort_by_key xs) = set xs"
  by (induction xs) (simp_all add: stable_sort_by_key_def set_insert_by_key)

lemma distinct_stable_sort_by_key:
  "distinct (map snd (stable_sort_by_key xs)) \<longleftrightarrow> distinct (map snd xs)"
  by (induction xs)
     (simp_all add: stable_sort_by_key_def distinct_insert_by_key
        set_stable_sort_by_key [unfolded stable_sort_by_key_def])

lemma sort_by_distance_Inr:
  assumes "sort_by_distance rt sigs start_lat start_lon ws = Inr ws'"
  shows "set ws' = set ws" and "distinct ws' \<longleftrightarrow> distinct ws"
proof -
  from assms obtain keys where
    keys: "distance_keys rt sigs start_lat start_lon ws = Inr keys" and
    ws': "ws' = (if NaN \<in> set keys then sort_key (sort_rank_with_nan rt keys ws) ws
                 else map snd (stable_sort_by_key (zip keys ws)))"
    by (auto simp: sort_by_distance_def split: sum.splits if_splits)
  from distance_keys_length [OF keys] have snd_zip: "map snd (zip keys ws) = ws" by simp
  have "set (map snd (stable_sort_by_key (zip keys ws))) = set (map snd (zip keys ws))"
    by (simp only: set_map set_stable_sort_by_key)
  with snd_zip ws' show "set ws' = set ws" by (simp split: if_splits)
  from distinct_stable_sort_by_key [of "zip keys ws"] snd_zip ws'
  show "distinct ws' \<longleftrightarrow> distinct ws" by (simp split: if_splits)
qed

lemma sort_by_distance_returns:
  assumes "set ws \<subseteq> fst ` set sigs"
    and "\<forall>(name, (sig_lat, sig_lon)) \<in> set sigs.
           \<exists>d. haversine rt start_lat start_lon sig_lat sig_lon = Inr d"
  shows "\<exists>ws'. sort_by_distance rt sigs start_lat start_lon ws = Inr ws'"
  using distance_keys_returns [OF assms] by (auto simp: sort_by_distance_def)

lemma path_signals_Inr:
  assumes "distinct (map fst sigs)"
    and "path_signals rt sigs pts start_name end_name = Inr middle"
  shows "distinct middle" and "start_name \<notin> set middle" and "end_name \<notin> set middle"
    and "\<forall>s \<in> set middle. \<exists>sig_lat sig_lon. map_of sigs s = Some (sig_lat, sig_lon) \<and>
           (\<exists>(lat, lon) \<in> set pts. \<exists>d. haversine rt lat lon sig_lat sig_lon = Inr d \<and>
               float_lt d WAYPOINT_PROXIMITY_KM)"
    and "map_of sigs start_name \<noteq> None"
proof -
  from assms(2) obtain names start_lat start_lon sorted where
    names: "signals_near_path rt sigs pts = Inr names" and
    start: "map_of sigs start_name = Some (start_lat, start_lon)" and
    sorted: "sort_by_distance rt sigs start_lat start_lon names = Inr sorted" and
    middle: "middle =
       (let a = (if start_name \<in> set sorted then remove1 start_name sorted else sorted)
        in if end_name \<in> set a then remove1 end_name a else a)"
    by (auto simp: path_signals_def Let_def split: sum.splits option.splits)
  let ?a = "if start_name \<in> set sorted then remove1 start_name sorted else sorted"
  from distinct_signals_near_path [OF assms(1) names] sort_by_distance_Inr [OF sorted]
  have d: "distinct sorted" and s: "set sorted = set names" by simp_all
  have da: "distinct ?a" using d by simp
  have sa: "set ?a = set sorted - {start_name}" using d by simp
  from middle have m: "middle = (if end_name \<in> set ?a then remove1 end_name ?a else ?a)"
    by (simp add: Let_def)
  show "distinct middle" using da unfolding m by simp
  have sm: "set middle = set ?a - {end_name}" using da unfolding m by simp
  show "start_name \<notin> set middle" "end_name \<notin> set middle" using sa sm by auto
  have "set middle \<subseteq> set names" using sa sm s by auto
  with signals_near_path_near [OF assms(1) names]
  show "\<forall>s \<in> set middle. \<exists>sig_lat sig_lon. map_of sigs s = Some (sig_lat, sig_lon) \<and>
           (\<exists>(lat, lon) \<in> set pts. \<exists>d. haversine rt lat lon sig_lat sig_lon = Inr d \<and>
               float_lt d WAYPOINT_PROXIMITY_KM)"
    by blast
  show "map_of sigs start_name \<noteq> None" using start by simp
qed

lemma path_signals_returns:
  assumes "map_of sigs start_name = Some (start_lat, start_lon)"
    and "\<forall>(name, (sig_lat, sig_lon)) \<in> set sigs.
           (\<forall>(lat, lon) \<in> set pts. \<exists>d. haversine rt lat lon sig_lat sig_lon = Inr d) \<and>
           (\<exists>d. haversine rt start_lat start_lon sig_lat sig_lon = Inr d)"
  shows "\<exists>middle. path_signals rt sigs pts start_name end_name = Inr middle"
proof -
  from assms(2) have 1: "\<forall>(name, (sig_lat, sig_lon)) \<in> set sigs.
     \<forall>(lat, lon) \<in> set pts. \<exists>d. haversine rt lat lon sig_lat sig_lon = Inr d"
    and 2: "\<forall>(name, (sig_lat, sig_lon)) \<in> set sigs.
           \<exists>d. haversine rt start_lat start_lon sig_lat sig_lon = Inr d"
    by auto
  from signals_near_path_returns [OF 1] obtain names where
    names: "signals_near_path rt sigs pts = Inr names" by blast
  from sort_by_distance_returns [OF signals_near_path_subset [OF names] 2] obtain sorted where
    "sort_by_distance rt sigs start_lat start_lon names = Inr sorted" by blast
  with names assms(1) show ?thesis by (simp add: path_signals_def Let_def)
qed

lemma path_signals_error:
  assumes "path_signals rt sigs pts start_name end_name = Inl e"
  shows "(e = KeyError \<and> map_of sigs start_name = None) \<or> (\<exists>me. e = MathError me)"
proof (cases "signals_near_path rt sigs pts")
  case (Inl e')
  with assms have "e = e'" by (simp add: path_signals_def)
  with signals_near_path_error [OF Inl] show ?thesis by simp
next
  case (Inr names)
  show ?thesis
  proof (cases "map_of sigs start_name")
    case None
    with assms Inr show ?thesis by (simp add: path_signals_def)
  next
    case (Some c)
    obtain start_lat start_lon where c: "c = (start_lat, start_lon)" by (cases c)
    from assms Inr Some c have
      "distance_keys rt sigs start_lat start_lon names = Inl e"
      by (auto simp: path_signals_def sort_by_distance_def Let_def split: sum.splits if_splits)
    from distance_keys_error [OF this] signals_near_path_subset [OF Inr] show ?thesis by auto
  qed
qed

text \<open>
  Claim C2. For a registry with distinct names and an end name different from the start
  name, the Control Panel and the VSC function agree. Whenever they return a list, it
  begins with the start, ends with the end, repeats no name, and every other name in it
  is a registered signal strictly closer than \<open>WAYPOINT_PROXIMITY_KM\<close> to some
  point of the path. They return a list when the start is registered and none of the
  distances they may compute raises; what they raise otherwise is \<open>KeyError\<close> for a
  start that is not registered, or the arithmetic error of a distance.
\<close>

theorem waypoint_sequence_shape:
  assumes "distinct (map fst (SIGNALS g))" and "start_name \<noteq> end_name"
  shows "vsc_find_signals_on_path rt g pts start_name end_name =
           find_signals_on_path rt g pts start_name end_name \<and>
         (\<forall>ws. find_signals_on_path rt g pts start_name end_name = Inr ws \<longrightarrow>
            hd ws = start_name \<and> last ws = end_name \<and> distinct ws \<and>
            (\<forall>s \<in> set ws. s \<noteq> start_name \<and> s \<noteq> end_name \<longrightarrow>
               (\<exists>sig_lat sig_lon. map_of (SIGNALS g) s = Some (sig_lat, sig_lon) \<and>
                  (\<exists>(lat, lon) \<in> set pts. \<exists>d.
                      haversine rt lat lon sig_lat sig_lon = Inr d \<and>
                      float_lt d WAYPOINT_PROXIMITY_KM)))) \<and>
         (\<forall>start_lat start_lon.
            map_of (SIGNALS g) start_name = Some (start_lat, start_lon) \<and>
            (\<forall>(name, (sig_lat, sig_lon)) \<in> set (SIGNALS g).
               (\<forall>(lat, lon) \<in> set pts. \<exists>d. haversine rt lat lon sig_lat sig_lon = Inr d) \<and>
               (\<exists>d. haversine rt start_lat start_lon sig_lat sig_lon = Inr d)) \<longrightarrow>
            (\<exists>ws. find_signals_on_path rt g pts start_name end_name = Inr ws)) \<and>
         (\<forall>e. find_signals_on_path rt g pts start_name end_name = Inl e \<longrightarrow>
            e = KeyError \<and> map_of (SIGNALS g) start_name = None \<or> (\<exists>me. e = MathError me))"
proof -
  have same: "vsc_find_signals_on_path rt g pts start_name end_name =
           find_signals_on_path rt g pts start_name end_name"
  proof (cases "path_signals rt (SIGNALS g) pts start_name end_name")
    case (Inl e)
    then show ?thesis by (simp add: find_signals_on_path_def vsc_find_signals_on_path_def)
  next
    case (Inr middle)
    from path_signals_Inr(1-3) [OF assms(1) Inr] assms(2)
    have "distinct ([start_name] @ middle @ [end_name])" by simp
    from fromkeys_distinct [OF this] Inr show ?thesis
      by (simp add: find_signals_on_path_def vsc_find_signals_on_path_def)
  qed
  have shape: "hd ws = start_name \<and> last ws = end_name \<and> distinct ws \<and>
            (\<forall>s \<in> set ws. s \<noteq> start_name \<and> s \<noteq> end_name \<longrightarrow>
               (\<exists>sig_lat sig_lon. map_of (SIGNALS g) s = Some (sig_lat, sig_lon) \<and>
                  (\<exists>(lat, lon) \<in> set pts. \<exists>d.
                      haversine rt lat lon sig_lat sig_lon = Inr d \<and>
                      float_lt d WAYPOINT_PROXIMITY_KM)))"
    if ws: "find_signals_on_path rt g pts start_name end_name = Inr ws" for ws
  proof -
    from ws same have "vsc_find_signals_on_path rt g pts start_name end_name = Inr ws"
      by simp
    then obtain middle where
      m: "path_signals rt (SIGNALS g) pts start_name end_name = Inr middle" and
      eq: "ws = [start_name] @ middle @ [end_name]"
      by (auto simp: vsc_find_signals_on_path_def split: sum.splits)
    note p = path_signals_Inr [OF assms(1) m]
    have "distinct ws" using p(1-3) assms(2) by (simp add: eq)
    moreover have "hd ws = start_name" "last ws = end_name" by (simp_all add: eq)
    moreover have "\<exists>sig_lat sig_lon. map_of (SIGNALS g) s = Some (sig_lat, sig_lon) \<and>
                  (\<exists>(lat, lon) \<in> set pts. \<exists>d.
                      haversine rt lat lon sig_lat sig_lon = Inr d \<and>
                      float_lt d WAYPOINT_PROXIMITY_KM)"
      if "s \<in> set ws" "s \<noteq> start_name \<and> s \<noteq> end_name" for s
    proof -
      from that have "s \<in> set middle" by (auto simp: eq)
      with p(4) show ?thesis by blast
    qed
    ultimately show ?thesis by blast
  qed
  have returns: "\<exists>ws. find_signals_on_path rt g pts start_name end_name = Inr ws"
    if "map_of (SIGNALS g) start_name = Some (start_lat, start_lon) \<and>
            (\<forall>(name, (sig_lat, sig_lon)) \<in> set (SIGNALS g).
               (\<forall>(lat, lon) \<in> set pts. \<exists>d. haversine rt lat lon sig_lat sig_lon = Inr d) \<and>
               (\<exists>d. haversine rt start_lat start_lon sig_lat sig_lon = Inr d))"
    for start_lat start_lon
  proof -
    from that path_signals_returns [of "SIGNALS g" start_name start_lat start_lon pts rt end_name]
    obtain middle where "path_signals rt (SIGNALS g) pts start_name end_name = Inr middle"
      by blast
    then show ?thesis by (simp add: find_signals_on_path_def)
  qed
  have err: "e = KeyError \<and> map_of (SIGNALS g) start_name = None \<or> (\<exists>me. e = MathError me)"
    if "find_signals_on_path rt g pts start_name end_name = Inl e" for e
  proof -
    from that have "path_signals rt (SIGNALS g) pts start_name end_name = Inl e"
      by (auto simp: find_signals_on_path_def split: sum.splits)
    from path_signals_error [OF this] show ?thesis .
  qed
  from same shape returns err show ?thesis by blast
qed

lemma three_signals_sequence:
  "find_signals_on_path exact_math three_signals [(Finite 0, Finite 0)] ''A'' ''B'' =
     Inr [''A'', ''M'', ''B'']"
  using far_antimeridian near_zero
  by (simp add: find_signals_on_path_def path_signals_def sort_by_distance_def
      stable_sort_by_key_def three_signals_def initial_globals_def fromkeys_Cons
      haversine_exact_same haversine_exact_antimeridian)

lemma three_signals_raise:
  "find_signals_on_path rounding_up_math three_signals [(Finite 0, Finite 180)] ''A'' ''B'' =
     Inl (MathError ValueError)"
proof -
  have "haversine rounding_up_math (Finite 0) (Finite 180) (Finite 0) (Finite 0) = Inl ValueError"
    by (simp add: haversine_def rounding_up_math_def exact_math_def real_atan2_def
        checked_sqrt_def)
  then show ?thesis
    by (simp add: find_signals_on_path_def path_signals_def three_signals_def
        initial_globals_def)
qed

text \<open>A path of the single point at the origin, from A to B; and a path of the single point
  on the antimeridian, where the arithmetic that rounds the sum up raises at the first
  distance.\<close>

theorem waypoint_sequence_shape_witness:
  "find_signals_on_path exact_math three_signals [(Finite 0, Finite 0)] ''A'' ''B'' =
     Inr [''A'', ''M'', ''B''] \<and>
   vsc_find_signals_on_path exact_math three_signals [(Finite 0, Finite 0)] ''A'' ''B'' =
     Inr [''A'', ''M'', ''B''] \<and>
   (\<exists>sig_lat sig_lon. map_of (SIGNALS three_signals) ''M'' = Some (sig_lat, sig_lon) \<and>
      (\<exists>(lat, lon) \<in> set [(Finite 0, Finite 0)]. \<exists>d.
          haversine exact_math lat lon sig_lat sig_lon = Inr d \<and>
          float_lt d WAYPOINT_PROXIMITY_KM)) \<and>
   vsc_find_signals_on_path rounding_up_math three_signals [(Finite 0, Finite 180)] ''A'' ''B'' =
     Inl (MathError ValueError)"
proof -
  have 1: "distinct (map fst (SIGNALS three_signals))"
    by (simp add: three_signals_def)
  have 2: "''A'' \<noteq> ''B''" by simp
  note t = waypoint_sequence_shape [OF 1 2, of exact_math "[(Finite 0, Finite 0)]"]
  note r = waypoint_sequence_shape [OF 1 2, of rounding_up_math "[(Finite 0, Finite 180)]"]
  from t three_signals_sequence
  have vsc: "vsc_find_signals_on_path exact_math three_signals [(Finite 0, Finite 0)] ''A'' ''B'' =
     Inr [''A'', ''M'', ''B'']"
    by simp
  from t three_signals_sequence
  have "\<forall>s \<in> set [''A'', ''M'', ''B'']. s \<noteq> ''A'' \<and> s \<noteq> ''B'' \<longrightarrow>
         (\<exists>sig_lat sig_lon. map_of (SIGNALS three_signals) s = Some (sig_lat, sig_lon) \<and>
            (\<exists>(lat, lon) \<in> set [(Finite 0, Finite 0)]. \<exists>d.
                haversine exact_math lat lon sig_lat sig_lon = Inr d \<and>
                float_lt d WAYPOINT_PROXIMITY_KM))"
    by blast
  from this [rule_format, of "''M''"]
  have near: "\<exists>sig_lat sig_lon. map_of (SIGNALS three_signals) ''M'' = Some (sig_lat, sig_lon) \<and>
      (\<exists>(lat, lon) \<in> set [(Finite 0, Finite 0)]. \<exists>d.
          haversine exact_math lat lon sig_lat sig_lon = Inr d \<and>
          float_lt d WAYPOINT_PROXIMITY_KM)"
    by simp
  from r three_signals_raise
  have raise: "vsc_find_signals_on_path rounding_up_math three_signals
      [(Finite 0, Finite 180)] ''A'' ''B'' = Inl (MathError ValueError)"
    by simp
  from three_signals_sequence vsc near raise show ?thesis by (intro conjI)
qed

section \<open>Properties of the route simulation\<close>

lemma ticks_Suc: "ticks (Suc k) g = fst (get_next_simulated_location (ticks k g))"
  by (simp add: ticks_def)

lemma vsc_ticks_Suc: "vsc_ticks (Suc k) g = fst (vsc_get_next_simulated_location (vsc_ticks k g))"
  by (simp add: vsc_ticks_def)

lemma get_next_frame:
  "route_points (fst (get_next_simulated_location g)) = route_points g"
  "current_point_index (fst (get_next_simulated_location g)) =
     (if current_point_index g < length (route_points g)
      then current_point_index g + 1 else current_point_index g)"
  by (auto simp: get_next_simulated_location_def Let_def)

lemma vsc_get_next_frame:
  "route_points (fst (vsc_get_next_simulated_location g)) = route_points g"
  "current_point_index (fst (vsc_get_next_simulated_location g)) =
     (if current_point_index g < length (route_points g)
      then current_point_index g + 1 else current_point_index g)"
  by (auto simp: vsc_get_next_simulated_location_def Let_def)

lemma ticks_state:
  assumes "current_point_index g = 0"
  shows "route_points (ticks k g) = route_points g \<and>
         current_point_index (ticks k g) = min k (length (route_points g))"
proof (induction k)
  case 0
  with assms show ?case by (simp add: ticks_def)
next
  case (Suc k)
  then show ?case by (auto simp: ticks_Suc get_next_frame)
qed

lemma vsc_ticks_state:
  assumes "current_point_index g = 0"
  shows "route_points (vsc_ticks k g) = route_points g \<and>
         current_point_index (vsc_ticks k g) = min k (length (route_points g))"
proof (induction k)
  case 0
  with assms show ?case by (simp add: vsc_ticks_def)
next
  case (Suc k)
  then show ?case by (auto simp: vsc_ticks_Suc vsc_get_next_frame)
qed

lemma get_next_result:
  "snd (get_next_simulated_location g) =
     (let pts = route_points g; idx = current_point_index g in
      if idx < length pts then (Some (pts ! idx), Some (pts ! (idx - 1)))
      else if pts = [] then (None, None)
      else (Some (last pts), Some (if length pts > 1 then pts ! (length pts - 2) else last pts)))"
  by (auto simp: get_next_simulated_location_def Let_def)

lemma vsc_get_next_result:
  "snd (vsc_get_next_simulated_location g) =
     (let pts = route_points g; idx = current_point_index g in
      if idx < length pts then (Some (pts ! idx), Some (pts ! (idx - 1)))
      else (None, None))"
  by (auto simp: vsc_get_next_simulated_location_def Let_def)

text \<open>From a cursor at 0 on a non-empty route, the call after \<open>k\<close> earlier calls
  returns \<open>points[k]\<close> with \<open>points[k - 1]\<close> (or \<open>points[0]\<close> when \<open>k = 0\<close>) in
  both manual servers, and the cursor has advanced by one per call up to the length. Past
  the end the Control Panel returns the last point with the one before it (the last
  itself on a route of one point); the VSC server returns no location.\<close>

lemma tick_walks_then_holds:
  assumes "current_point_index g = 0" and "route_points g \<noteq> []"
  shows "snd (get_next_simulated_location (ticks k g)) =
           (if k < length (route_points g)
            then (Some (route_points g ! k),
                  Some (route_points g ! (if k = 0 then 0 else k - 1)))
            else (Some (last (route_points g)),
                  Some (if length (route_points g) > 1
                        then route_points g ! (length (route_points g) - 2)
                        else last (route_points g)))) \<and>
         current_point_index (ticks k g) = min k (length (route_points g)) \<and>
         snd (vsc_get_next_simulated_location (vsc_ticks k g)) =
           (if k < length (route_points g)
            then (Some (route_points g ! k),
                  Some (route_points g ! (if k = 0 then 0 else k - 1)))
            else (None, None)) \<and>
         current_point_index (vsc_ticks k g) = min k (length (route_points g))"
  using assms(2) ticks_state [OF assms(1), of k] vsc_ticks_state [OF assms(1), of k]
  by (simp add: get_next_result vsc_get_next_result Let_def)

lemma vsc_get_location_no_location:
  assumes "snd (vsc_get_next_simulated_location g) = (None, None)"
  shows "vsc_get_location rt g = (g, Error500 ''error: no route selected'')"
proof -
  from assms have "vsc_get_next_simulated_location g = (g, (None, None))"
    by (auto simp: vsc_get_next_simulated_location_def Let_def split: if_splits)
  then show ?thesis by (simp add: vsc_get_location_def)
qed

text \<open>
  Claim C3, evaluated on the code. On the freshly activated route of two points from
  Chakli Circle to Diwalipura Circle, the first two calls of the VSC server return the two
  points in order. The third call returns no location, so that \<open>/location\<close> answers
  with the text of the error and status 500, for every arithmetic; the Control Panel's
  third call returns the held last point with the point before it.
\<close>

theorem vsc_tick_past_end:
  "snd (vsc_get_next_simulated_location (vsc_ticks 0 chakli_to_diwalipura_started)) =
     (Some (Finite 22.308333, Finite 73.165278), Some (Finite 22.308333, Finite 73.165278)) \<and>
   snd (vsc_get_next_simulated_location (vsc_ticks 1 chakli_to_diwalipura_started)) =
     (Some (Finite 22.301806, Finite 73.165500), Some (Finite 22.308333, Finite 73.165278)) \<and>
   snd (vsc_get_next_simulated_location (vsc_ticks 2 chakli_to_diwalipura_started)) =
     (None, None) \<and>
   vsc_get_location rt (vsc_ticks 2 chakli_to_diwalipura_started) =
     (vsc_ticks 2 chakli_to_diwalipura_started, Error500 ''error: no route selected'') \<and>
   snd (get_next_simulated_location (ticks 2 chakli_to_diwalipura_started)) =
     (Some (Finite 22.301806, Finite 73.165500), Some (Finite 22.308333, Finite 73.165278))"
proof -
  have 1: "current_point_index chakli_to_diwalipura_started = 0"
    by (simp add: chakli_to_diwalipura_started_def control_panel_ready_def
        setup_signal_data_def initial_globals_def)
  have pts: "route_points chakli_to_diwalipura_started =
      [(Finite 22.308333, Finite 73.165278), (Finite 22.301806, Finite 73.165500)]"
    by (simp add: chakli_to_diwalipura_started_def)
  then have 2: "route_points chakli_to_diwalipura_started \<noteq> []" by simp
  note t = tick_walks_then_holds [OF 1 2, unfolded pts]
  from t [of 2] have past:
    "snd (vsc_get_next_simulated_location (vsc_ticks 2 chakli_to_diwalipura_started)) =
       (None, None)"
    by simp
  from t [of 0] t [of 1] t [of 2] vsc_get_location_no_location [OF past, of rt]
  show ?thesis by simp
qed

section \<open>Properties of route activation\<close>

lemma known_sorted: "sorted_signal_names KNOWN_SIGNALS = map fst KNOWN_SIGNALS"
  by (simp add: sorted_signal_names_def KNOWN_SIGNALS_def)

lemma ready_SIGNALS [simp]: "SIGNALS control_panel_ready = KNOWN_SIGNALS"
  by (simp add: control_panel_ready_def setup_signal_data_def)

lemma ready_ids:
  "SIGNAL_ID_TO_NAME control_panel_ready 1 = Some ''Chakli Circle''"
  "SIGNAL_ID_TO_NAME control_panel_ready 2 = Some ''Diwalipura Circle''"
  "SIGNAL_ID_TO_NAME control_panel_ready 3 = Some ''Elora T-Junction''"
  "SIGNAL_ID_TO_NAME control_panel_ready 4 = Some ''Genda Circle (Natubhai Circle)''"
  by (simp_all add: control_panel_ready_def SIGNAL_ID_TO_NAME_setup known_sorted)
     (simp_all add: KNOWN_SIGNALS_def upt_rec)

lemma start_manual_route_provider_failure:
  assumes "SIGNAL_ID_TO_NAME g start_id = Some sn" and "SIGNAL_ID_TO_NAME g end_id = Some en"
    and "map_of (SIGNALS g) sn = Some sc" and "map_of (SIGNALS g) en = Some ec"
    and "get_osrm_route (snd sc, fst sc) (snd ec, fst ec) = None \<or>
         get_osrm_route (snd sc, fst sc) (snd ec, fst ec) = Some []"
  shows "start_manual_route rt get_osrm_route start_id end_id g =
           (g\<lparr>current_start_name := sn, current_destination_name := en\<rparr>,
            Inr CouldNotCalculate)"
  using assms by (auto simp: start_manual_route_def)

lemma vsc_start_route_provider_failure:
  assumes "SIGNAL_ID_TO_NAME g start_id = Some sn" and "SIGNAL_ID_TO_NAME g end_id = Some en"
    and "map_of (SIGNALS g) sn = Some sc" and "map_of (SIGNALS g) en = Some ec"
    and "get_osrm_route (snd sc, fst sc) (snd ec, fst ec) = None \<or>
         get_osrm_route (snd sc, fst sc) (snd ec, fst ec) = Some []"
  shows "vsc_start_route rt get_osrm_route start_id end_id g =
           (g\<lparr>current_start_name := sn, current_destination_name := en\<rparr>,
            Inr CouldNotCalculate)"
  using assms by (auto simp: vsc_start_route_def)

lemma start_manual_route_success:
  assumes "SIGNAL_ID_TO_NAME g start_id = Some sn" and "SIGNAL_ID_TO_NAME g end_id = Some en"
    and "map_of (SIGNALS g) sn = Some sc" and "map_of (SIGNALS g) en = Some ec"
    and "get_osrm_route (snd sc, fst sc) (snd ec, fst ec) = Some (c # cs)"
    and "path_signals rt (SIGNALS g) (map (\<lambda>(lon, lat). (lat, lon)) (c # cs)) sn en = Inr middle"
  shows "\<exists>waypoints. start_manual_route rt get_osrm_route start_id end_id g =
           (g\<lparr>current_start_name := sn, current_destination_name := en,
              route_points := map (\<lambda>(lon, lat). (lat, lon)) (c # cs),
              route_signal_waypoints := waypoints,
              current_point_index := 0,
              previous_location := None,
              signals_passed_on_current_route := [],
              mqtt_published := mqtt_published g @ [map (\<lambda>(lon, lat). (lat, lon)) (c # cs)]\<rparr>,
            Inr (Started waypoints))"
  using assms by (simp add: start_manual_route_def find_signals_on_path_def)

lemma vsc_start_route_success:
  assumes "SIGNAL_ID_TO_NAME g start_id = Some sn" and "SIGNAL_ID_TO_NAME g end_id = Some en"
    and "map_of (SIGNALS g) sn = Some sc" and "map_of (SIGNALS g) en = Some ec"
    and "get_osrm_route (snd sc, fst sc) (snd ec, fst ec) = Some (c # cs)"
    and "path_signals rt (SIGNALS g) (map (\<lambda>(lon, lat). (lat, lon)) (c # cs)) sn en = Inr middle"
  shows "\<exists>waypoints. vsc_start_route rt get_osrm_route start_id end_id g =
           (g\<lparr>current_start_name := sn, current_destination_name := en,
              route_points := map (\<lambda>(lon, lat). (lat, lon)) (c # cs),
              route_signal_waypoints := waypoints,
              current_point_index := 0,
              signals_passed_on_current_route := [],
              mqtt_published := mqtt_published g @ [map (\<lambda>(lon, lat). (lat, lon)) (c # cs)]\<rparr>,
            Inr (Started waypoints))"
  using assms by (simp add: vsc_start_route_def vsc_find_signals_on_path_def)

lemma vsc_start_route_previous_location:
  "previous_location (fst (vsc_start_route rt get_osrm_route start_id end_id g)) =
     previous_location g"
  by (simp add: vsc_start_route_def Let_def split: option.splits list.splits sum.splits)

lemma path_signals_exact_returns:
  assumes "map_of sigs start_name = Some (Finite start_lat, Finite start_lon)"
    and "\<forall>(name, (lat, lon)) \<in> set sigs.
           lat = Finite (float_value lat) \<and> lon = Finite (float_value lon)"
    and "\<forall>(lat, lon) \<in> set pts. lat = Finite (float_value lat) \<and> lon = Finite (float_value lon)"
  shows "\<exists>middle. path_signals exact_math sigs pts start_name end_name = Inr middle"
proof (rule path_signals_returns [OF assms(1)], clarify, intro conjI ballI)
  fix name sig_lat sig_lon
  assume s: "(name, (sig_lat, sig_lon)) \<in> set sigs"
  with assms(2) have ab: "sig_lat = Finite (float_value sig_lat)"
    "sig_lon = Finite (float_value sig_lon)"
    by auto
  show "\<exists>d. haversine exact_math (Finite start_lat) (Finite start_lon) sig_lat sig_lon = Inr d"
    using haversine_exact_returns [of start_lat start_lon "float_value sig_lat"
        "float_value sig_lon"] ab
    by auto
  fix p
  assume "p \<in> set pts"
  with assms(3) obtain lat lon where p: "p = (Finite lat, Finite lon)"
    by (cases p) auto
  show "case p of (lat, lon) \<Rightarrow> \<exists>d. haversine exact_math lat lon sig_lat sig_lon = Inr d"
    using haversine_exact_returns [of lat lon "float_value sig_lat" "float_value sig_lon"] ab
    by (auto simp: p)
qed

lemma known_signals_finite:
  "\<forall>(name, (lat, lon)) \<in> set (SIGNALS chakli_to_diwalipura).
     lat = Finite (float_value lat) \<and> lon = Finite (float_value lon)"
  by (simp add: chakli_to_diwalipura_def chakli_to_diwalipura_started_def KNOWN_SIGNALS_def)

text \<open>The pool draw of the Simulation Server resets the cursor, the previous location and
  the passed list, and takes the points and waypoints of one route of the pool.\<close>

lemma select_new_route_resets:
  assumes "PRECALCULATED_ROUTES g \<noteq> []"
  shows "snd (select_new_route pick g) \<and>
         current_point_index (fst (select_new_route pick g)) = 0 \<and>
         previous_location (fst (select_new_route pick g)) = None \<and>
         signals_passed_on_current_route (fst (select_new_route pick g)) = [] \<and>
         (\<exists>r \<in> set (PRECALCULATED_ROUTES g).
            route_points (fst (select_new_route pick g)) = rt_points r \<and>
            route_signal_waypoints (fst (select_new_route pick g)) = rt_waypoints r)"
proof -
  let ?r = "PRECALCULATED_ROUTES g ! (pick mod length (PRECALCULATED_ROUTES g))"
  from assms have "?r \<in> set (PRECALCULATED_ROUTES g)" by simp
  then have "\<exists>r \<in> set (PRECALCULATED_ROUTES g). rt_points ?r = rt_points r \<and>
      rt_waypoints ?r = rt_waypoints r"
    by blast
  with assms show ?thesis by (simp add: select_new_route_def Let_def)
qed

lemma active_ids:
  "SIGNAL_ID_TO_NAME chakli_to_diwalipura 3 = Some ''Elora T-Junction''"
  "SIGNAL_ID_TO_NAME chakli_to_diwalipura 4 = Some ''Genda Circle (Natubhai Circle)''"
  by (simp_all add: chakli_to_diwalipura_def chakli_to_diwalipura_started_def ready_ids)

lemma active_coords:
  "map_of (SIGNALS chakli_to_diwalipura) ''Elora T-Junction'' =
     Some (Finite 22.315333, Finite 73.161444)"
  "map_of (SIGNALS chakli_to_diwalipura) ''Genda Circle (Natubhai Circle)'' =
     Some (Finite 22.309944, Finite 73.158667)"
  by (simp_all add: chakli_to_diwalipura_def chakli_to_diwalipura_started_def KNOWN_SIGNALS_def)

text \<open>An activation of the Control Panel that answers with the error message or raises
  \<open>KeyError\<close> changes nothing but the two recorded names.\<close>

lemma failed_activation_frame:
  assumes "snd (start_manual_route rt get_osrm_route start_id end_id g) = Inr CouldNotCalculate \<or>
           snd (start_manual_route rt get_osrm_route start_id end_id g) = Inl KeyError"
  shows "\<exists>sn en. fst (start_manual_route rt get_osrm_route start_id end_id g) =
           g\<lparr>current_start_name := sn, current_destination_name := en\<rparr>"
proof -
  have same: "g = g\<lparr>current_start_name := current_start_name g,
                   current_destination_name := current_destination_name g\<rparr>"
    by simp
  show ?thesis
  proof (cases "SIGNAL_ID_TO_NAME g start_id")
    case None
    then have "fst (start_manual_route rt get_osrm_route start_id end_id g) = g"
      by (simp add: start_manual_route_def)
    with same show ?thesis by metis
  next
    case sn: (Some sn)
    show ?thesis
    proof (cases "SIGNAL_ID_TO_NAME g end_id")
      case None
      with sn have "fst (start_manual_route rt get_osrm_route start_id end_id g) =
          g\<lparr>current_start_name := sn, current_destination_name := current_destination_name g\<rparr>"
        by (simp add: start_manual_route_def)
      then show ?thesis by blast
    next
      case en: (Some en)
      show ?thesis
      proof (cases "\<exists>sc ec c cs. map_of (SIGNALS g) sn = Some sc \<and> map_of (SIGNALS g) en = Some ec \<and>
          get_osrm_route (snd sc, fst sc) (snd ec, fst ec) = Some (c # cs)")
        case True
        then obtain sc ec c cs where hyps: "map_of (SIGNALS g) sn = Some sc"
          "map_of (SIGNALS g) en = Some ec"
          "get_osrm_route (snd sc, fst sc) (snd ec, fst ec) = Some (c # cs)"
          by blast
        let ?pts = "map (\<lambda>(lon, lat). (lat, lon)) (c # cs)"
        show ?thesis
        proof (cases "path_signals rt (SIGNALS g) ?pts sn en")
          case (Inr middle)
          from start_manual_route_success [where get_osrm_route = get_osrm_route,
              OF sn en hyps Inr] assms
          show ?thesis by force
        next
          case (Inl e)
          from path_signals_error [OF Inl] hyps(1) obtain me where me: "e = MathError me"
            by auto
          from sn en hyps Inl
          have "snd (start_manual_route rt get_osrm_route start_id end_id g) = Inl e"
            by (simp add: start_manual_route_def find_signals_on_path_def)
          with assms me show ?thesis by simp
        qed
      next
        case False
        with sn en have "fst (start_manual_route rt get_osrm_route start_id end_id g) =
          g\<lparr>current_start_name := sn, current_destination_name := en\<rparr>"
          by (auto simp: start_manual_route_def Let_def split: option.splits list.splits)
        then show ?thesis by blast
      qed
    qed
  qed
qed

text \<open>
  Claim C1, evaluated on the code. With the route from Chakli Circle to Diwalipura Circle
  active, a request for the signals 3 and 4 whose provider call fails answers with the
  error in both manual servers, and leaves the route, but the recorded start and
  destination names are those of the failed request.
\<close>

theorem failed_activation_overwrites_names:
  "start_manual_route rt (\<lambda>start_coord end_coord. None) 3 4 chakli_to_diwalipura =
     (chakli_to_diwalipura
        \<lparr>current_start_name := ''Elora T-Junction'',
         current_destination_name := ''Genda Circle (Natubhai Circle)''\<rparr>,
      Inr CouldNotCalculate) \<and>
   vsc_start_route rt (\<lambda>start_coord end_coord. None) 3 4 chakli_to_diwalipura =
     (chakli_to_diwalipura
        \<lparr>current_start_name := ''Elora T-Junction'',
         current_destination_name := ''Genda Circle (Natubhai Circle)''\<rparr>,
      Inr CouldNotCalculate) \<and>
   current_start_name chakli_to_diwalipura = ''Chakli Circle'' \<and>
   current_destination_name chakli_to_diwalipura = ''Diwalipura Circle'' \<and>
   route_signal_waypoints chakli_to_diwalipura = [''Chakli Circle'', ''Diwalipura Circle'']"
proof -
  have "start_manual_route rt (\<lambda>start_coord end_coord. None) 3 4 chakli_to_diwalipura =
     (chakli_to_diwalipura
        \<lparr>current_start_name := ''Elora T-Junction'',
         current_destination_name := ''Genda Circle (Natubhai Circle)''\<rparr>,
      Inr CouldNotCalculate)"
    by (rule start_manual_route_provider_failure [OF active_ids active_coords]) simp
  moreover
  have "vsc_start_route rt (\<lambda>start_coord end_coord. None) 3 4 chakli_to_diwalipura =
     (chakli_to_diwalipura
        \<lparr>current_start_name := ''Elora T-Junction'',
         current_destination_name := ''Genda Circle (Natubhai Circle)''\<rparr>,
      Inr CouldNotCalculate)"
    by (rule vsc_start_route_provider_failure [OF active_ids active_coords]) simp
  ultimately show ?thesis
    by (simp add: chakli_to_diwalipura_def chakli_to_diwalipura_started_def)
qed

text \<open>
  Claim C4, evaluated on the code. The same request with a provider that answers. Under
  every arithmetic the previous location of the VSC server is afterwards still the point
  of the old route. Without rounding the VSC server starts the new route with the cursor
  at 0 and nothing passed, and the Control Panel clears the previous location.
\<close>

theorem vsc_activation_keeps_previous_location:
  "previous_location (fst (vsc_start_route rt elora_to_genda 3 4 chakli_to_diwalipura)) =
     Some (Finite 22.308333, Finite 73.165278) \<and>
   (\<exists>waypoints. snd (vsc_start_route exact_math elora_to_genda 3 4 chakli_to_diwalipura) =
      Inr (Started waypoints)) \<and>
   route_points (fst (vsc_start_route exact_math elora_to_genda 3 4 chakli_to_diwalipura)) =
     [(Finite 22.315333, Finite 73.161444), (Finite 22.309944, Finite 73.158667)] \<and>
   current_point_index
     (fst (vsc_start_route exact_math elora_to_genda 3 4 chakli_to_diwalipura)) = 0 \<and>
   signals_passed_on_current_route
     (fst (vsc_start_route exact_math elora_to_genda 3 4 chakli_to_diwalipura)) = [] \<and>
   previous_location
     (fst (start_manual_route exact_math elora_to_genda 3 4 chakli_to_diwalipura)) = None"
proof -
  let ?pts = "[(Finite 73.161444, Finite 22.315333), (Finite 73.158667, Finite 22.309944)]"
  have osrm: "elora_to_genda a b = Some ?pts" for a b
    by (simp add: elora_to_genda_def)
  have "\<forall>(lat, lon) \<in> set (map (\<lambda>(lon, lat). (lat, lon)) ?pts).
      lat = Finite (float_value lat) \<and> lon = Finite (float_value lon)"
    by simp
  from path_signals_exact_returns [OF active_coords(1) known_signals_finite this]
  obtain middle where
    middle: "path_signals exact_math (SIGNALS chakli_to_diwalipura)
       (map (\<lambda>(lon, lat). (lat, lon)) ?pts)
       ''Elora T-Junction'' ''Genda Circle (Natubhai Circle)'' = Inr middle"
    by blast
  from vsc_start_route_success [where get_osrm_route = elora_to_genda,
      OF active_ids active_coords osrm middle] obtain ws where
    vsc: "vsc_start_route exact_math elora_to_genda 3 4 chakli_to_diwalipura =
           (chakli_to_diwalipura\<lparr>current_start_name := ''Elora T-Junction'',
              current_destination_name := ''Genda Circle (Natubhai Circle)'',
              route_points := map (\<lambda>(lon, lat). (lat, lon)) ?pts,
              route_signal_waypoints := ws,
              current_point_index := 0,
              signals_passed_on_current_route := [],
              mqtt_published := mqtt_published chakli_to_diwalipura @
                 [map (\<lambda>(lon, lat). (lat, lon)) ?pts]\<rparr>,
            Inr (Started ws))"
    by blast
  from start_manual_route_success [where get_osrm_route = elora_to_genda,
      OF active_ids active_coords osrm middle] obtain ws' where
    cp: "start_manual_route exact_math elora_to_genda 3 4 chakli_to_diwalipura =
           (chakli_to_diwalipura\<lparr>current_start_name := ''Elora T-Junction'',
              current_destination_name := ''Genda Circle (Natubhai Circle)'',
              route_points := map (\<lambda>(lon, lat). (lat, lon)) ?pts,
              route_signal_waypoints := ws',
              current_point_index := 0,
              previous_location := None,
              signals_passed_on_current_route := [],
              mqtt_published := mqtt_published chakli_to_diwalipura @
                 [map (\<lambda>(lon, lat). (lat, lon)) ?pts]\<rparr>,
            Inr (Started ws'))"
    by blast
  have prev: "previous_location chakli_to_diwalipura = Some (Finite 22.308333, Finite 73.165278)"
    by (simp add: chakli_to_diwalipura_def)
  have stale: "previous_location
      (fst (vsc_start_route rt elora_to_genda 3 4 chakli_to_diwalipura)) =
     Some (Finite 22.308333, Finite 73.165278)"
    by (simp only: vsc_start_route_previous_location prev)
  show ?thesis
    unfolding vsc cp using stale by simp
qed

section \<open>Properties of the telemetry payload\<close>

lemma digit_char_in: "d < 10 \<Longrightarrow> digit_char d \<in> set ''0123456789''"
proof -
  assume "d < 10"
  then have "d < length ''0123456789''" by simp
  then show ?thesis unfolding digit_char_def by (rule nth_mem)
qed

lemma str_nat_digits: "set (str_nat n) \<subseteq> set ''0123456789''"
proof (induction n rule: str_nat.induct)
  case (1 n)
  show ?case
  proof (cases "n < 10")
    case True
    with digit_char_in [of n] show ?thesis by (subst str_nat.simps) simp
  next
    case False
    have "n mod 10 < 10" by simp
    from digit_char_in [OF this] "1.IH" [OF False] False show ?thesis
      by (subst str_nat.simps) simp
  qed
qed

lemma str_nat_nonempty: "str_nat n \<noteq> []"
  by (subst str_nat.simps) simp

lemma length_str_nat: "n < 10 ^ k \<Longrightarrow> 0 < k \<Longrightarrow> length (str_nat n) \<le> k"
proof (induction n arbitrary: k rule: str_nat.induct)
  case (1 n)
  show ?case
  proof (cases "n < 10")
    case True
    with "1.prems" show ?thesis by (subst str_nat.simps) simp
  next
    case False
    with "1.prems" obtain k' where k: "k = Suc k'" "0 < k'"
      by (cases k; cases "k - 1") auto
    from "1.prems"(1) k have "n div 10 < 10 ^ k'"
      by (simp add: less_mult_imp_div_less mult.commute)
    from "1.IH" [OF False this k(2)] False k show ?thesis
      by (subst str_nat.simps) simp
  qed
qed

lemma digit_value_digit_char: "d < 10 \<Longrightarrow> digit_value (digit_char d) = d"
proof -
  assume "d < 10"
  then have "d \<in> {0, 1, 2, 3, 4, 5, 6, 7, 8, 9}" by auto
  then show ?thesis
    by (auto simp: digit_value_def digit_char_def)
qed

lemma digit_char_zero: "d < 10 \<Longrightarrow> digit_char d = CHR ''0'' \<longleftrightarrow> d = 0"
proof -
  assume "d < 10"
  then have "d \<in> {0, 1, 2, 3, 4, 5, 6, 7, 8, 9}" by auto
  then show ?thesis
    by (auto simp: digit_char_def)
qed

lemma nat_of_digits_snoc:
  "nat_of_digits (ds @ [c]) = 10 * nat_of_digits ds + digit_value c"
  by (simp add: nat_of_digits_def)

lemma nat_of_digits_str_nat: "nat_of_digits (str_nat n) = n"
proof (induction n rule: str_nat.induct)
  case (1 n)
  show ?case
  proof (cases "n < 10")
    case True
    then show ?thesis
      by (subst str_nat.simps) (simp add: nat_of_digits_def digit_value_digit_char)
  next
    case False
    have "n mod 10 < 10" by simp
    from "1.IH" [OF False] False digit_value_digit_char [OF this] show ?thesis
      by (subst str_nat.simps) (simp add: nat_of_digits_snoc)
  qed
qed

lemma foldl_zeros:
  "foldl (\<lambda>n c. 10 * n + digit_value c) 0 (replicate k (CHR ''0'')) = 0"
  by (induction k) (simp_all add: digit_value_def)

lemma nat_of_digits_leading_zeros:
  "nat_of_digits (replicate k (CHR ''0'') @ ds) = nat_of_digits ds"
  by (simp add: nat_of_digits_def foldl_zeros)

lemma str_nat_canonical: "str_nat n = ''0'' \<or> hd (str_nat n) \<noteq> CHR ''0''"
proof (induction n rule: str_nat.induct)
  case (1 n)
  show ?case
  proof (cases "n < 10")
    case True
    have eq: "str_nat n = [digit_char n]" using True by (subst str_nat.simps) simp
    show ?thesis
    proof (cases "n = 0")
      case True
      with eq show ?thesis by (simp add: digit_char_def)
    next
      case False
      with digit_char_zero [OF \<open>n < 10\<close>] eq show ?thesis by simp
    qed
  next
    case False
    then have eq: "str_nat n = str_nat (n div 10) @ [digit_char (n mod 10)]"
      by (subst str_nat.simps) simp
    from False have "n div 10 \<noteq> 0" by simp
    have "str_nat (n div 10) \<noteq> ''0''"
    proof
      assume "str_nat (n div 10) = ''0''"
      then have "nat_of_digits (str_nat (n div 10)) = nat_of_digits ''0''" by simp
      then have "n div 10 = 0"
        by (simp add: nat_of_digits_str_nat) (simp add: nat_of_digits_def digit_value_def)
      with \<open>n div 10 \<noteq> 0\<close> show False by simp
    qed
    with "1.IH" [OF False] have "hd (str_nat (n div 10)) \<noteq> CHR ''0''" by simp
    with str_nat_nonempty [of "n div 10"] show ?thesis by (simp add: eq)
  qed
qed

lemma round_half_even_nearest:
  "\<bar>real_of_int (round_half_even y) - y\<bar> \<le> 1 / 2"
proof -
  have "real_of_int \<lfloor>y\<rfloor> \<le> y" "y < real_of_int \<lfloor>y\<rfloor> + 1" by linarith+
  then show ?thesis
    by (auto simp: round_half_even_def Let_def)
qed

lemma round_half_even_tie:
  assumes "\<bar>real_of_int (round_half_even y) - y\<bar> = 1 / 2"
  shows "even (round_half_even y)"
proof -
  have fl: "real_of_int \<lfloor>y\<rfloor> \<le> y" "y < real_of_int \<lfloor>y\<rfloor> + 1" by linarith+
  show ?thesis
  proof (cases "y - real_of_int \<lfloor>y\<rfloor> < 1 / 2")
    case True
    then have "round_half_even y = \<lfloor>y\<rfloor>" by (simp add: round_half_even_def Let_def)
    with assms True fl show ?thesis by simp
  next
    case False
    show ?thesis
    proof (cases "1 / 2 < y - real_of_int \<lfloor>y\<rfloor>")
      case True
      then have "round_half_even y = \<lfloor>y\<rfloor> + 1"
        using False by (simp add: round_half_even_def Let_def)
      with assms True fl show ?thesis by simp
    next
      case False
      with \<open>\<not> y - real_of_int \<lfloor>y\<rfloor> < 1 / 2\<close> show ?thesis
        by (simp add: round_half_even_def Let_def)
    qed
  qed
qed

lemma round_half_even_nonneg: "0 \<le> y \<Longrightarrow> 0 \<le> round_half_even y"
proof -
  assume "0 \<le> y"
  then have "0 \<le> \<lfloor>y\<rfloor>" by simp
  then show ?thesis by (simp add: round_half_even_def Let_def)
qed

lemma format_6f_unfold:
  "format_6f (Finite x) =
     (if x < 0 then ''-'' else []) @
     str_nat (nat (round_half_even (\<bar>x\<bar> * 1000000)) div 1000000) @ ''.'' @
     replicate (6 - length (str_nat (nat (round_half_even (\<bar>x\<bar> * 1000000)) mod 1000000)))
       (CHR ''0'') @
     str_nat (nat (round_half_even (\<bar>x\<bar> * 1000000)) mod 1000000)"
  by (simp add: format_6f_def Let_def)

text \<open>A negative zero keeps its sign and has six decimals. An infinity and not-a-number,
  which no coordinate is, are written as words.\<close>

lemma format_6f_special:
  "format_6f NegZero = ''-0.000000''"
  "format_6f PosInf = ''inf''"
  "format_6f NegInf = ''-inf''"
  "format_6f NaN = ''nan''"
  by (simp_all add: format_6f_def)

lemma format_6f_Finite:
  "\<exists>whole frac. format_6f (Finite x) = (if x < 0 then ''-'' else []) @ whole @ ''.'' @ frac \<and>
      whole \<noteq> [] \<and> set whole \<subseteq> set ''0123456789'' \<and>
      (whole = ''0'' \<or> hd whole \<noteq> CHR ''0'') \<and>
      length frac = 6 \<and> set frac \<subseteq> set ''0123456789'' \<and>
      \<bar>real (nat_of_digits whole * 1000000 + nat_of_digits frac) - \<bar>x\<bar> * 1000000\<bar> \<le> 1 / 2 \<and>
      (\<bar>real (nat_of_digits whole * 1000000 + nat_of_digits frac) - \<bar>x\<bar> * 1000000\<bar> = 1 / 2 \<longrightarrow>
         even (nat_of_digits whole * 1000000 + nat_of_digits frac))"
proof -
  let ?r = "round_half_even (\<bar>x\<bar> * 1000000)"
  let ?n = "nat ?r"
  let ?whole = "str_nat (?n div 1000000)"
  let ?f = "str_nat (?n mod 1000000)"
  let ?frac = "replicate (6 - length ?f) (CHR ''0'') @ ?f"
  have "?n mod 1000000 < 10 ^ 6" by simp
  then have "length ?f \<le> 6" by (rule length_str_nat) simp
  then have len: "length ?frac = 6" by simp
  have "set (replicate (6 - length ?f) (CHR ''0'')) \<subseteq> set ''0123456789''"
    by (auto simp: set_replicate_conv_if)
  with str_nat_digits [of "?n mod 1000000"]
  have digs: "set ?frac \<subseteq> set ''0123456789''" by simp
  have r0: "0 \<le> ?r" by (rule round_half_even_nonneg) simp
  have "nat_of_digits ?whole * 1000000 + nat_of_digits ?frac = ?n"
    by (simp add: nat_of_digits_str_nat nat_of_digits_leading_zeros)
  then have val: "real (nat_of_digits ?whole * 1000000 + nat_of_digits ?frac) = real_of_int ?r"
    using r0 by simp
  have near: "\<bar>real (nat_of_digits ?whole * 1000000 + nat_of_digits ?frac) - \<bar>x\<bar> * 1000000\<bar> \<le> 1 / 2"
    unfolding val by (rule round_half_even_nearest)
  have tie: "\<bar>real (nat_of_digits ?whole * 1000000 + nat_of_digits ?frac) - \<bar>x\<bar> * 1000000\<bar> = 1 / 2 \<longrightarrow>
         even (nat_of_digits ?whole * 1000000 + nat_of_digits ?frac)"
  proof
    assume "\<bar>real (nat_of_digits ?whole * 1000000 + nat_of_digits ?frac) - \<bar>x\<bar> * 1000000\<bar> = 1 / 2"
    then have "\<bar>real_of_int ?r - \<bar>x\<bar> * 1000000\<bar> = 1 / 2" unfolding val .
    then have "even ?r" by (rule round_half_even_tie)
    with r0 have "even (int ?n)" by simp
    then have "even ?n" by (simp only: even_of_nat_iff)
    with \<open>nat_of_digits ?whole * 1000000 + nat_of_digits ?frac = ?n\<close>
    show "even (nat_of_digits ?whole * 1000000 + nat_of_digits ?frac)" by simp
  qed
  have "format_6f (Finite x) = (if x < 0 then ''-'' else []) @ ?whole @ ''.'' @ ?frac"
    by (simp add: format_6f_def Let_def)
  with len digs str_nat_nonempty [of "?n div 1000000"] str_nat_digits [of "?n div 1000000"]
    str_nat_canonical [of "?n div 1000000"] near tie
  show ?thesis by blast
qed

lemma format_6f_no_comma: "CHR '','' \<notin> set (format_6f v)"
proof (cases v)
  case (Finite x)
  from format_6f_Finite [of x] obtain whole frac where
    "format_6f (Finite x) = (if x < 0 then ''-'' else []) @ whole @ ''.'' @ frac"
    "set whole \<subseteq> set ''0123456789''" "set frac \<subseteq> set ''0123456789''"
    by blast
  with Finite show ?thesis by auto
qed (simp_all add: format_6f_special)

lemma str_int_no_comma: "CHR '','' \<notin> set (str_int i)"
  using str_nat_digits [of "nat i"] str_nat_digits [of "nat (- i)"]
  by (auto simp: str_int_def)

lemma split_commas_free: "CHR '','' \<notin> set xs \<Longrightarrow> split_commas xs = [xs]"
  by (induction xs) auto

lemma split_commas_field:
  "CHR '','' \<notin> set xs \<Longrightarrow> split_commas (xs @ CHR '','' # ys) = xs # split_commas ys"
  by (induction xs) auto

lemma split_commas_payload:
  "split_commas (payload current_loc prev_loc start_id dest_id next_signal_id) =
     [format_6f (fst current_loc), format_6f (snd current_loc),
      format_6f (fst prev_loc), format_6f (snd prev_loc),
      str_int start_id, str_int dest_id, str_int next_signal_id]"
  by (simp add: payload_def split_commas_field split_commas_free
      format_6f_no_comma str_int_no_comma)

lemma format_6f_examples:
  "format_6f (Finite 22.308300) = ''22.308300''"
  "format_6f (Finite 73.165200) = ''73.165200''"
  "format_6f (Finite 22.308200) = ''22.308200''"
  "format_6f (Finite 73.165100) = ''73.165100''"
  by (simp_all add: format_6f_unfold round_half_even_def)
     (simp_all add: str_nat.simps digit_char_def)

text \<open>The same four strings from the doubles nearest to the four decimals, given by their
  exact values.\<close>

lemma format_6f_float_examples:
  "format_6f (Finite (6279228222954327 / 281474976710656)) = ''22.308300''"
  "format_6f (Finite (2574271620753811 / 35184372088832)) = ''73.165200''"
  "format_6f (Finite (392450004716041 / 17592186044416)) = ''22.308200''"
  "format_6f (Finite (1287134051158301 / 17592186044416)) = ''73.165100''"
  by (simp_all add: format_6f_unfold round_half_even_def)
     (simp_all add: str_nat.simps digit_char_def)

lemma str_int_examples: "str_int 3 = ''3''" "str_int 7 = ''7''" "str_int 5 = ''5''"
  by (simp_all add: str_int_def str_nat.simps digit_char_def)

text \<open>Ties go to the even neighbour (both \<open>0.0078125\<close> and \<open>0.0234375\<close> are doubles),
  and a negative value that rounds to zero keeps its sign.\<close>

lemma rounding_examples:
  "format_6f (Finite 0.0078125) = ''0.007812''"
  "format_6f (Finite 0.0234375) = ''0.023438''"
  "format_6f (Finite (- 0.5)) = ''-0.500000''"
  "format_6f (Finite (- 0.000000001)) = ''-0.000000''"
  "format_6f (Finite 0) = ''0.000000''"
  "format_6f (Finite 73) = ''73.000000''"
  apply (simp_all add: format_6f_unfold round_half_even_def)
  apply (simp_all add: str_nat.simps digit_char_def)
  apply (simp_all add: numeral_eq_Suc)
  done

lemma payload_example:
  "payload (Finite 22.308300, Finite 73.165200) (Finite 22.308200, Finite 73.165100) 3 7 5 =
     ''22.308300,73.165200,22.308200,73.165100,3,7,5''"
  unfolding payload_def fst_conv snd_conv format_6f_examples str_int_examples
  by simp

lemma payload_float_example:
  "payload (Finite (6279228222954327 / 281474976710656),
            Finite (2574271620753811 / 35184372088832))
           (Finite (392450004716041 / 17592186044416),
            Finite (1287134051158301 / 17592186044416)) 3 7 5 =
     ''22.308300,73.165200,22.308200,73.165100,3,7,5''"
  unfolding payload_def fst_conv snd_conv format_6f_float_examples str_int_examples
  by simp

lemma split_point:
  "a @ ''.'' @ b = a' @ ''.'' @ b' \<Longrightarrow> CHR ''.'' \<notin> set a \<Longrightarrow> CHR ''.'' \<notin> set a' \<Longrightarrow>
     a = a' \<and> b = b'"
proof (induction a arbitrary: a')
  case Nil
  then show ?case by (cases a') auto
next
  case (Cons c a)
  then show ?case by (cases a') auto
qed

lemma no_point_in_digits: "set ds \<subseteq> set ''0123456789'' \<Longrightarrow> CHR ''.'' \<notin> set ds"
  by auto

text \<open>
  Claim C8. The example of the specification is encoded to exactly the string it gives,
  from the decimals and from the doubles nearest to them. In general the payload read
  back at its commas has exactly seven fields, the four coordinates and the three ids in
  the order of the arguments, each written by itself. A finite coordinate is written as a
  minus sign when it is negative, an integer part without leading zeros, a point, and
  exactly six digits; the number the digits write is the nearest millionth of the
  coordinate's absolute value, the even one at a tie. The negative zero is written with
  its sign and six zeros. An id that is not negative is written with digits only, without
  leading zeros, and the digits write the id; a negative id is the minus sign before the
  digits of its absolute value.
\<close>

theorem telemetry_payload_format:
  "payload (Finite 22.308300, Finite 73.165200) (Finite 22.308200, Finite 73.165100) 3 7 5 =
     ''22.308300,73.165200,22.308200,73.165100,3,7,5'' \<and>
   payload (Finite (6279228222954327 / 281474976710656),
            Finite (2574271620753811 / 35184372088832))
           (Finite (392450004716041 / 17592186044416),
            Finite (1287134051158301 / 17592186044416)) 3 7 5 =
     ''22.308300,73.165200,22.308200,73.165100,3,7,5'' \<and>
   split_commas (payload current_loc prev_loc start_id dest_id next_signal_id) =
     [format_6f (fst current_loc), format_6f (snd current_loc),
      format_6f (fst prev_loc), format_6f (snd prev_loc),
      str_int start_id, str_int dest_id, str_int next_signal_id] \<and>
   (\<exists>whole frac. format_6f (Finite x) = (if x < 0 then ''-'' else []) @ whole @ ''.'' @ frac \<and>
      whole \<noteq> [] \<and> set whole \<subseteq> set ''0123456789'' \<and>
      (whole = ''0'' \<or> hd whole \<noteq> CHR ''0'') \<and>
      length frac = 6 \<and> set frac \<subseteq> set ''0123456789'' \<and>
      \<bar>real (nat_of_digits whole * 1000000 + nat_of_digits frac) - \<bar>x\<bar> * 1000000\<bar> \<le> 1 / 2 \<and>
      (\<bar>real (nat_of_digits whole * 1000000 + nat_of_digits frac) - \<bar>x\<bar> * 1000000\<bar> = 1 / 2 \<longrightarrow>
         even (nat_of_digits whole * 1000000 + nat_of_digits frac))) \<and>
   format_6f NegZero = ''-0.000000'' \<and>
   str_int (int k) \<noteq> [] \<and> set (str_int (int k)) \<subseteq> set ''0123456789'' \<and>
   (str_int (int k) = ''0'' \<or> hd (str_int (int k)) \<noteq> CHR ''0'') \<and>
   nat_of_digits (str_int (int k)) = k \<and>
   str_int (- int (Suc k)) = CHR ''-'' # str_int (int (Suc k))"
proof -
  have eq: "str_int (int k) = str_nat k" by (simp add: str_int_def)
  have ids: "str_int (int k) \<noteq> []" "set (str_int (int k)) \<subseteq> set ''0123456789''"
    "str_int (int k) = ''0'' \<or> hd (str_int (int k)) \<noteq> CHR ''0''"
    "nat_of_digits (str_int (int k)) = k"
    unfolding eq
    using str_nat_nonempty [of k] str_nat_digits [of k] str_nat_canonical [of k]
      nat_of_digits_str_nat [of k]
    by blast+
  have neg: "str_int (- int (Suc k)) = CHR ''-'' # str_int (int (Suc k))"
    by (simp add: str_int_def del: of_nat_Suc)
  from payload_example payload_float_example
    split_commas_payload [of current_loc prev_loc start_id dest_id next_signal_id]
    format_6f_Finite [of x] format_6f_special(1) ids neg
  show ?thesis by blast
qed

text \<open>The tie \<open>0.0078125\<close>, written with the even last digit, and the id 73.\<close>

theorem telemetry_payload_format_witness:
  "format_6f (Finite 0.0078125) = ''0.007812'' \<and>
   \<bar>real (nat_of_digits ''0'' * 1000000 + nat_of_digits ''007812'') - \<bar>0.0078125\<bar> * 1000000\<bar>
     = 1 / 2 \<and>
   even (nat_of_digits ''0'' * 1000000 + nat_of_digits ''007812'') \<and>
   str_int (int 73) = ''73'' \<and> hd (str_int (int 73)) \<noteq> CHR ''0''"
proof -
  have v: "format_6f (Finite 0.0078125) = ''0.007812''" by (rule rounding_examples)
  have pos: "\<not> (0.0078125 :: real) < 0" by simp
  from telemetry_payload_format [where x = "0.0078125" and k = 73]
  obtain whole frac where
    f: "format_6f (Finite 0.0078125) =
          (if (0.0078125 :: real) < 0 then ''-'' else []) @ whole @ ''.'' @ frac" and
    dw: "set whole \<subseteq> set ''0123456789''" and
    tie: "\<bar>real (nat_of_digits whole * 1000000 + nat_of_digits frac) - \<bar>0.0078125\<bar> * 1000000\<bar>
            = 1 / 2 \<longrightarrow>
          even (nat_of_digits whole * 1000000 + nat_of_digits frac)"
    by blast
  from telemetry_payload_format [where x = "0.0078125" and k = 73]
  have canon: "str_int (int 73) = ''0'' \<or> hd (str_int (int 73)) \<noteq> CHR ''0''"
    by blast
  from f have "''0'' @ ''.'' @ ''007812'' = whole @ ''.'' @ frac"
    unfolding v if_not_P [OF pos] by simp
  from split_point [OF this _ no_point_in_digits [OF dw]]
  have parts: "whole = ''0''" "frac = ''007812''" by simp_all
  have half: "\<bar>real (nat_of_digits ''0'' * 1000000 + nat_of_digits ''007812'') -
      \<bar>0.0078125\<bar> * 1000000\<bar> = 1 / 2"
    by (simp add: nat_of_digits_def digit_value_def)
  with tie have ev: "even (nat_of_digits ''0'' * 1000000 + nat_of_digits ''007812'')"
    unfolding parts by blast
  have s: "str_int (int 73) = ''73''"
    by (simp add: str_int_def str_nat.simps digit_char_def)
  with canon have "hd (str_int (int 73)) \<noteq> CHR ''0''" by auto
  with v half ev s show ?thesis by (intro conjI)
qed

end
